theory Spec2Isabelle
  imports Complex_Main
begin

section \<open>H-Inception: the hybrid filter bank and the network assembly\<close>

text \<open>
  A shallow embedding of \<^verbatim>\<open>classifiers/H_Inception.py\<close> (class \<^verbatim>\<open>HINCEPTION\<close>).

  The class builds a Keras graph. What it computes itself are the constant filters of the
  hybrid layer (numpy arrays), the order and the arguments of the layer calls, and the
  arguments handed to training. The embedding therefore has three parts: the numpy arrays
  of the custom filters, the graph under construction as an explicit state (the list of
  layers created so far, each with the tensors it reads), and the preparation of the
  training call in \<^verbatim>\<open>fit\<close>.

  Array weights are exact rationals. For the kernel sizes the layer uses (2 to 64) every
  weight is \<open>\<plusminus>1\<close>, \<open>0\<close> or a multiple of \<open>j\<^sup>2 / n\<^sup>2\<close> with \<open>n\<close> a power of two not above 16,
  which a double represents exactly, so the arrays of the model are the arrays numpy builds.
\<close>

subsection \<open>Errors\<close>

text \<open>
  \<open>ValueError\<close>: numpy cannot broadcast the right-hand side of a slice assignment, the
  framework rejects an argument of a layer or finds incompatible shapes in a merge layer,
  or the label encoder is given no sample. \<open>AxisError\<close>: \<^verbatim>\<open>np.expand_dims(None, axis=1)\<close>.
\<close>

datatype error = ValueError | AxisError

definition bind_err :: "error + 'a \<Rightarrow> ('a \<Rightarrow> error + 'b) \<Rightarrow> error + 'b" where
  "bind_err m f = (case m of Inl e \<Rightarrow> Inl e | Inr a \<Rightarrow> f a)"

subsection \<open>numpy arrays of shape (taps, input channels, 1)\<close>

type_synonym ndarray3 = "rat list list list"

definition np_ones :: "nat \<Rightarrow> nat \<Rightarrow> ndarray3" where
  "np_ones k c = replicate k (replicate c [1])"

definition np_zeros :: "nat \<Rightarrow> nat \<Rightarrow> ndarray3" where
  "np_zeros k c = replicate k (replicate c [0])"

definition np_arange :: "nat \<Rightarrow> nat list" where
  "np_arange k = [0..<k]"

text \<open>\<^verbatim>\<open>a[mask] *= c\<close> for a boolean mask along the first axis.\<close>

definition imul_mask :: "bool list \<Rightarrow> rat \<Rightarrow> ndarray3 \<Rightarrow> ndarray3" where
  "imul_mask bs c a =
     map (\<lambda>(b, row). if b then map (map (\<lambda>w. w * c)) row else row) (zip bs a)"

text \<open>
  \<^verbatim>\<open>np.linspace(start=0, stop=1, num=num)\<close>: \<open>num\<close> equally spaced points from 0 to 1,
  both ends included.
\<close>

definition np_linspace01 :: "nat \<Rightarrow> rat list" where
  "np_linspace01 num =
     (if num = 0 then []
      else if num = 1 then [0]
      else map (\<lambda>i. of_nat i / of_nat (num - 1)) [0..<num])"

text \<open>
  \<^verbatim>\<open>a[lo:hi] = v\<close> where \<open>v\<close> has shape \<open>(length v, 1, 1)\<close>, given as the list of its
  scalars. The slice is clipped to the array. numpy broadcasts \<open>v\<close> over the channel axis
  and needs \<open>length v\<close> to be the length of the slice, or 1; otherwise it raises.
\<close>

definition fill :: "rat \<Rightarrow> rat list list \<Rightarrow> rat list list" where
  "fill x row = map (map (\<lambda>_. x)) row"

definition set_slice :: "nat \<Rightarrow> nat \<Rightarrow> rat list \<Rightarrow> ndarray3 \<Rightarrow> error + ndarray3" where
  "set_slice lo hi v a =
     (let start = min lo (length a);
          stop = min hi (length a);
          m = stop - start;
          target = take m (drop start a)
      in if length v = m then
           Inr (take start a @ map (\<lambda>(x, row). fill x row) (zip v target) @ drop (start + m) a)
         else if length v = 1 then
           Inr (take start a @ map (fill (v ! 0)) target @ drop (start + m) a)
         else Inl ValueError)"

subsection \<open>The custom filters (\<^verbatim>\<open>hybrid_layer\<close>, the three loop bodies)\<close>

definition increasing_filter :: "nat \<Rightarrow> nat \<Rightarrow> ndarray3" where
  "increasing_filter kernel_size input_channels =
     (let filter0 = np_ones kernel_size input_channels;
          indices = np_arange kernel_size
      in imul_mask (map (\<lambda>i. i mod 2 = 0) indices) (- 1) filter0)"

definition decreasing_filter :: "nat \<Rightarrow> nat \<Rightarrow> ndarray3" where
  "decreasing_filter kernel_size input_channels =
     (let filter0 = np_ones kernel_size input_channels;
          indices = np_arange kernel_size
      in imul_mask (map (\<lambda>i. i mod 2 > 0) indices) (- 1) filter0)"

text \<open>\<^verbatim>\<open>np.linspace(start=0,stop=1,num=kernel_size//4+1)[1:].reshape((-1,1,1))\<close>\<close>

definition xmesh :: "nat \<Rightarrow> rat list" where
  "xmesh kernel_size = drop 1 (np_linspace01 (kernel_size div 4 + 1))"

definition peak_filter :: "nat \<Rightarrow> nat \<Rightarrow> error + ndarray3" where
  "peak_filter kernel_size input_channels =
     (let filter0 = np_zeros (kernel_size + kernel_size div 2) input_channels;
          filter_left = map (\<lambda>x. x ^ 2) (xmesh kernel_size);
          filter_right = rev filter_left
      in bind_err (set_slice 0 (kernel_size div 4) (map uminus filter_left) filter0) (\<lambda>f1.
         bind_err (set_slice (kernel_size div 4) (kernel_size div 2) (map uminus filter_right) f1) (\<lambda>f2.
         bind_err (set_slice (kernel_size div 2) (3 * kernel_size div 4) (map ((*) 2) filter_left) f2) (\<lambda>f3.
         bind_err (set_slice (3 * kernel_size div 4) kernel_size (map ((*) 2) filter_right) f3) (\<lambda>f4.
         bind_err (set_slice kernel_size (5 * kernel_size div 4) (map uminus filter_left) f4) (\<lambda>f5.
         set_slice (5 * kernel_size div 4) (length f5) (map uminus filter_right) f5))))))"

subsection \<open>The configuration (\<^verbatim>\<open>__init__\<close>)\<close>

text \<open>
  The arguments of the constructor. \<open>length_TS\<close>, \<open>n_classes\<close> and \<open>n_filters\<close> are only ever
  handed to the framework as tensor dimensions and are natural numbers here; \<open>depth\<close> and
  \<open>max_cf_length\<close> are consumed by \<^verbatim>\<open>range\<close> and \<open>batch_size\<close> by \<^verbatim>\<open>min\<close>, which take every
  integer. The class validates none of them; what fails on a dimension that is not positive
  is the framework, in the layer calls below.
\<close>

record hinception =
  output_directory :: string
  length_TS :: nat
  n_classes :: nat
  batch_size :: int
  max_cf_length :: int
  n_filters :: nat
  use_residual :: bool
  use_bottleneck :: bool
  depth :: int
  epochs :: int

text \<open>The constructor with its default keyword arguments.\<close>

definition HINCEPTION :: "string \<Rightarrow> nat \<Rightarrow> nat \<Rightarrow> hinception" where
  "HINCEPTION dir len classes =
     \<lparr>output_directory = dir, length_TS = len, n_classes = classes, batch_size = 64,
      max_cf_length = 6, n_filters = 32, use_residual = True, use_bottleneck = True,
      depth = 6, epochs = 1500\<rparr>"

text \<open>\<^verbatim>\<open>range(a, b)\<close>\<close>

definition py_range :: "int \<Rightarrow> int \<Rightarrow> int list" where
  "py_range a b = [a..b - 1]"

definition kernel_sizes :: "hinception \<Rightarrow> nat list" where
  "kernel_sizes self = [40, 20, 10]"

definition bottleneck_size :: "hinception \<Rightarrow> nat" where
  "bottleneck_size self = n_filters self"

definition increasing_trend_kernels :: "hinception \<Rightarrow> nat list" where
  "increasing_trend_kernels self = map (\<lambda>i. 2 ^ nat i) (py_range 1 (max_cf_length self + 1))"

definition decreasing_trend_kernels :: "hinception \<Rightarrow> nat list" where
  "decreasing_trend_kernels self = map (\<lambda>i. 2 ^ nat i) (py_range 1 (max_cf_length self + 1))"

definition peak_kernels :: "hinception \<Rightarrow> nat list" where
  "peak_kernels self = map (\<lambda>i. 2 ^ nat i) (py_range 2 (max_cf_length self + 1))"

subsection \<open>The graph under construction\<close>

text \<open>
  A layer call of the framework's functional interface adds a layer to the graph and
  returns the symbolic tensor the layer computes. A layer records the arguments the code
  passes and the tensors it reads (by their identifiers); a tensor carries the identifier
  of the layer that computes it and its shape without the batch axis. Every convolution
  and pooling of this class is called with \<^verbatim>\<open>padding='same'\<close> and stride 1, so it keeps the
  number of time steps; every convolution has \<^verbatim>\<open>use_bias=False\<close>.

  A convolution's \<open>kernel\<close> is \<open>Some\<close> array when the code passes a constant initializer and
  \<open>None\<close> when the weights are learned. The explicit layer names of the hybrid layer,
  \<^verbatim>\<open>prefix + str(self.keep_track) + '-' + str(kernel_size)\<close>, are kept as the triple of
  their parts.
\<close>

type_synonym layer_name = "string \<times> nat \<times> nat"

datatype layer =
    Input nat nat
  | Conv1D nat nat "ndarray3 option" bool "layer_name option" nat
  | MaxPool1D nat nat
  | Concatenate "nat list"
  | BatchNormalization nat
  | Activation string nat
  | Add nat nat
  | GlobalAveragePooling1D nat
  | Dense nat string nat

record ktensor =
  tid :: nat
  steps :: nat
  channels :: nat

record kvector =
  vid :: nat
  units :: nat

text \<open>
  The state threaded through \<^verbatim>\<open>build_model\<close>: the layers created so far, and the two
  attributes of \<^verbatim>\<open>self\<close> that the build mutates (\<^verbatim>\<open>self.keep_track\<close>, \<^verbatim>\<open>self.hybrid\<close>).
\<close>

record build_state =
  layers :: "layer list"
  keep_track :: nat
  hybrid :: "ktensor option"

definition call_layer :: "layer \<Rightarrow> nat \<Rightarrow> nat \<Rightarrow> build_state \<Rightarrow> ktensor \<times> build_state" where
  "call_layer l st ch s =
     (\<lparr>tid = length (layers s), steps = st, channels = ch\<rparr>, s\<lparr>layers := layers s @ [l]\<rparr>)"

definition keras_Input :: "nat \<Rightarrow> nat \<Rightarrow> build_state \<Rightarrow> ktensor \<times> build_state" where
  "keras_Input len ch s = call_layer (Input len ch) len ch s"

text \<open>
  \<^verbatim>\<open>Conv1D\<close>: the framework rejects a number of filters or a kernel size that is not
  positive with a \<^verbatim>\<open>ValueError\<close>.
\<close>

definition keras_Conv1D ::
  "nat \<Rightarrow> nat \<Rightarrow> ndarray3 option \<Rightarrow> bool \<Rightarrow> layer_name option \<Rightarrow> ktensor \<Rightarrow> build_state
   \<Rightarrow> error + (ktensor \<times> build_state)" where
  "keras_Conv1D filters ksize kinit trainable name x s =
     (if filters = 0 \<or> ksize = 0 then Inl ValueError
      else Inr (call_layer (Conv1D filters ksize kinit trainable name (tid x)) (steps x) filters s))"

definition keras_MaxPool1D :: "nat \<Rightarrow> ktensor \<Rightarrow> build_state \<Rightarrow> ktensor \<times> build_state" where
  "keras_MaxPool1D pool_size x s = call_layer (MaxPool1D pool_size (tid x)) (steps x) (channels x) s"

definition keras_BatchNormalization :: "ktensor \<Rightarrow> build_state \<Rightarrow> ktensor \<times> build_state" where
  "keras_BatchNormalization x s = call_layer (BatchNormalization (tid x)) (steps x) (channels x) s"

definition keras_Activation :: "string \<Rightarrow> ktensor \<Rightarrow> build_state \<Rightarrow> ktensor \<times> build_state" where
  "keras_Activation act x s = call_layer (Activation act (tid x)) (steps x) (channels x) s"

text \<open>
  \<^verbatim>\<open>Concatenate(axis=2)\<close>: the inputs must agree on the time axis (shape validation of the
  framework); the channel counts add up.
\<close>

definition keras_Concatenate ::
  "ktensor list \<Rightarrow> build_state \<Rightarrow> error + (ktensor \<times> build_state)" where
  "keras_Concatenate xs s =
     (case xs of
        [] \<Rightarrow> Inl ValueError
      | x # _ \<Rightarrow>
          if list_all (\<lambda>y. steps y = steps x) xs
          then Inr (call_layer (Concatenate (map tid xs)) (steps x) (sum_list (map channels xs)) s)
          else Inl ValueError)"

text \<open>
  \<^verbatim>\<open>Add\<close>: the framework's element-wise merge accepts two dimensions that are equal or of
  which one is 1, and rejects any other pair.
\<close>

definition elemwise_dim :: "nat \<Rightarrow> nat \<Rightarrow> error + nat" where
  "elemwise_dim i j =
     (if i = 1 then Inr j else if j = 1 then Inr i else if i \<noteq> j then Inl ValueError else Inr i)"

definition keras_Add :: "ktensor \<Rightarrow> ktensor \<Rightarrow> build_state \<Rightarrow> error + (ktensor \<times> build_state)" where
  "keras_Add a b s =
     bind_err (elemwise_dim (steps a) (steps b)) (\<lambda>st.
     bind_err (elemwise_dim (channels a) (channels b)) (\<lambda>ch.
     Inr (call_layer (Add (tid a) (tid b)) st ch s)))"

text \<open>
  \<^verbatim>\<open>GlobalAveragePooling1D\<close>: the framework rejects an input whose time axis is empty with
  a \<^verbatim>\<open>ValueError\<close>.
\<close>

definition keras_GlobalAveragePooling1D ::
  "ktensor \<Rightarrow> build_state \<Rightarrow> error + (kvector \<times> build_state)" where
  "keras_GlobalAveragePooling1D x s =
     (if steps x = 0 then Inl ValueError
      else Inr (\<lparr>vid = length (layers s), units = channels x\<rparr>,
                s\<lparr>layers := layers s @ [GlobalAveragePooling1D (tid x)]\<rparr>))"

definition keras_Dense :: "nat \<Rightarrow> string \<Rightarrow> kvector \<Rightarrow> build_state \<Rightarrow> kvector \<times> build_state" where
  "keras_Dense n act v s =
     (\<lparr>vid = length (layers s), units = n\<rparr>, s\<lparr>layers := layers s @ [Dense n act (vid v)]\<rparr>)"

subsection \<open>\<^verbatim>\<open>hybrid_layer\<close>\<close>

text \<open>
  The method runs three loops of the same shape over the kernel sizes, one per family of
  filters: build the constant array, create a frozen one-filter convolution initialised
  with it, append its output to \<^verbatim>\<open>conv_list\<close>, increment \<^verbatim>\<open>self.keep_track\<close>. The loop is
  written once, for a family; the families differ in the array, in the length of the
  convolution kernel and in the prefix of the layer name.
\<close>

datatype family = Increasing | Decreasing | Peak

definition family_prefix :: "family \<Rightarrow> string" where
  "family_prefix fam =
     (case fam of Increasing \<Rightarrow> ''hybrid-increasse-''
                | Decreasing \<Rightarrow> ''hybrid-decrease-''
                | Peak \<Rightarrow> ''hybrid-peeks-'')"

definition custom_filter :: "family \<Rightarrow> nat \<Rightarrow> nat \<Rightarrow> error + ndarray3" where
  "custom_filter fam k c =
     (case fam of Increasing \<Rightarrow> Inr (increasing_filter k c)
                | Decreasing \<Rightarrow> Inr (decreasing_filter k c)
                | Peak \<Rightarrow> peak_filter k c)"

definition conv_kernel_size :: "family \<Rightarrow> nat \<Rightarrow> nat" where
  "conv_kernel_size fam k = (case fam of Peak \<Rightarrow> k + k div 2 | _ \<Rightarrow> k)"

fun custom_convs ::
  "family \<Rightarrow> ktensor \<Rightarrow> nat \<Rightarrow> nat list \<Rightarrow> build_state \<Rightarrow> error + (ktensor list \<times> build_state)" where
  "custom_convs fam x c [] s = Inr ([], s)"
| "custom_convs fam x c (k # ks) s =
     bind_err (custom_filter fam k c) (\<lambda>w.
     bind_err (keras_Conv1D 1 (conv_kernel_size fam k) (Some w) False
                 (Some (family_prefix fam, keep_track s, k)) x s) (\<lambda>(conv, s1).
       let s2 = s1\<lparr>keep_track := keep_track s1 + 1\<rparr>
       in bind_err (custom_convs fam x c ks s2) (\<lambda>(convs, s3). Inr (conv # convs, s3))))"

text \<open>The default value of the parameter \<^verbatim>\<open>kernel_sizes\<close> of \<^verbatim>\<open>hybrid_layer\<close>.\<close>

definition default_kernel_sizes :: "nat list" where
  "default_kernel_sizes = [2, 4, 8, 16, 32, 64]"

definition hybrid_layer ::
  "ktensor \<Rightarrow> nat \<Rightarrow> nat list \<Rightarrow> build_state \<Rightarrow> error + (ktensor \<times> build_state)" where
  "hybrid_layer input_tensor input_channels ksizes s =
     bind_err (custom_convs Increasing input_tensor input_channels ksizes s) (\<lambda>(incs, s1).
     bind_err (custom_convs Decreasing input_tensor input_channels ksizes s1) (\<lambda>(decs, s2).
     bind_err (custom_convs Peak input_tensor input_channels (drop 1 ksizes) s2) (\<lambda>(peaks, s3).
     bind_err (keras_Concatenate (incs @ decs @ peaks) s3) (\<lambda>(h, s4).
     Inr (keras_Activation ''relu'' h s4)))))"

subsection \<open>\<^verbatim>\<open>_inception_module\<close> and \<^verbatim>\<open>_shortcut_layer\<close>\<close>

fun inception_convs ::
  "nat \<Rightarrow> ktensor \<Rightarrow> nat list \<Rightarrow> build_state \<Rightarrow> error + (ktensor list \<times> build_state)" where
  "inception_convs nf x [] s = Inr ([], s)"
| "inception_convs nf x (k # ks) s =
     bind_err (keras_Conv1D nf k None True None x s) (\<lambda>(conv, s1).
     bind_err (inception_convs nf x ks s1) (\<lambda>(convs, s2).
     Inr (conv # convs, s2)))"

text \<open>
  The module is written in two parts. The first is the body up to the comment
  \<^verbatim>\<open># add hybrid layer\<close>: the optional bottleneck, the three learned convolutions on its
  output, the pooled and projected branch on the module's input; it yields \<^verbatim>\<open>conv_list\<close>.
\<close>

definition inception_branches ::
  "hinception \<Rightarrow> ktensor \<Rightarrow> build_state \<Rightarrow> error + (ktensor list \<times> build_state)" where
  "inception_branches self input_tensor s =
     bind_err (if use_bottleneck self \<and> channels input_tensor > 1
               then keras_Conv1D (bottleneck_size self) 1 None True None input_tensor s
               else Inr (input_tensor, s)) (\<lambda>(input_inception, s1).
     bind_err (inception_convs (n_filters self) input_inception (kernel_sizes self) s1)
       (\<lambda>(convs, s2).
          let (max_pool_1, s3) = keras_MaxPool1D 3 input_tensor s2
          in bind_err (keras_Conv1D (n_filters self) 1 None True None max_pool_1 s3)
               (\<lambda>(conv_6, s4). Inr (convs @ [conv_6], s4))))"

text \<open>
  The second part is the rest of the body. The call of \<^verbatim>\<open>hybrid_layer\<close> passes no
  \<^verbatim>\<open>kernel_sizes\<close>, so the method's default stands.
\<close>

definition inception_module ::
  "hinception \<Rightarrow> ktensor \<Rightarrow> bool \<Rightarrow> build_state \<Rightarrow> error + (ktensor \<times> build_state)" where
  "inception_module self input_tensor use_hybrid_layer s =
     bind_err (inception_branches self input_tensor s) (\<lambda>(conv_list, s4).
     bind_err
       (if use_hybrid_layer
        then bind_err
               (hybrid_layer input_tensor (channels input_tensor) default_kernel_sizes s4)
               (\<lambda>(h, s5). Inr (conv_list @ [h], s5\<lparr>hybrid := Some h\<rparr>))
        else Inr (conv_list, s4))
       (\<lambda>(conv_list, s6).
          bind_err (keras_Concatenate conv_list s6) (\<lambda>(x, s7).
            let (x, s8) = keras_BatchNormalization x s7
            in Inr (keras_Activation ''relu'' x s8))))"

definition shortcut_layer ::
  "ktensor \<Rightarrow> ktensor \<Rightarrow> build_state \<Rightarrow> error + (ktensor \<times> build_state)" where
  "shortcut_layer input_tensor out_tensor s =
     bind_err (keras_Conv1D (channels out_tensor) 1 None True None input_tensor s)
       (\<lambda>(shortcut_y, s1).
          let (shortcut_y, s2) = keras_BatchNormalization shortcut_y s1
          in bind_err (keras_Add shortcut_y out_tensor s2) (\<lambda>(x, s3).
               Inr (keras_Activation ''relu'' x s3)))"

subsection \<open>\<^verbatim>\<open>build_model\<close>\<close>

text \<open>
  The body of the loop \<^verbatim>\<open>for d in range(self.depth)\<close>, on the two handles \<open>x\<close> and
  \<open>input_res\<close>, and the loop itself over the list of indices.
\<close>

definition build_step ::
  "hinception \<Rightarrow> int \<Rightarrow> ktensor \<times> ktensor \<Rightarrow> build_state
   \<Rightarrow> error + ((ktensor \<times> ktensor) \<times> build_state)" where
  "build_step self d h s =
     (let (x, input_res) = h
      in bind_err (if d = 0 then inception_module self x True s
                   else inception_module self x False s) (\<lambda>(x, s1).
           if use_residual self \<and> d mod 3 = 2
           then bind_err (shortcut_layer input_res x s1) (\<lambda>(x, s2). Inr ((x, x), s2))
           else Inr ((x, input_res), s1)))"

fun build_loop ::
  "hinception \<Rightarrow> int list \<Rightarrow> ktensor \<times> ktensor \<Rightarrow> build_state
   \<Rightarrow> error + ((ktensor \<times> ktensor) \<times> build_state)" where
  "build_loop self [] h s = Inr (h, s)"
| "build_loop self (d # ds) h s =
     bind_err (build_step self d h s) (\<lambda>(h', s'). build_loop self ds h' s')"

text \<open>
  What \<^verbatim>\<open>build_model\<close> leaves behind: the model (its input, its output and its layers) and
  the attributes \<^verbatim>\<open>keep_track\<close> and \<^verbatim>\<open>hybrid\<close>. Compiling the model and creating the two
  callbacks add no layer and are left out.
\<close>

record built =
  model_input :: ktensor
  model_output :: kvector
  final :: build_state

definition build_model :: "hinception \<Rightarrow> error + built" where
  "build_model self =
     (let s0 = \<lparr>layers = [], keep_track = 0, hybrid = None\<rparr>;
          (input_layer, s1) = keras_Input (length_TS self) 1 s0
      in bind_err (build_loop self (py_range 0 (depth self)) (input_layer, input_layer) s1)
           (\<lambda>((x, input_res), s2).
              bind_err (keras_GlobalAveragePooling1D x s2) (\<lambda>(gap_layer, s3).
                let (output_layer, s4) = keras_Dense (n_classes self) ''softmax'' gap_layer s3
                in Inr \<lparr>model_input = input_layer, model_output = output_layer, final = s4\<rparr>)))"

subsection \<open>\<^verbatim>\<open>fit\<close>: the arguments handed to training\<close>

text \<open>
  \<^verbatim>\<open>OneHotEncoder(sparse=False).fit_transform\<close> on a column of labels: fitting takes the
  categories to be the distinct labels in increasing order, transforming writes each label
  as the indicator row of its category. The encoder rejects an input without samples.
\<close>

definition ohe_fit :: "int list \<Rightarrow> int list" where
  "ohe_fit ys = sort (remdups ys)"

definition ohe_transform :: "int list \<Rightarrow> int list \<Rightarrow> rat list list" where
  "ohe_transform categories ys = map (\<lambda>y. map (\<lambda>c. if c = y then 1 else 0) categories) ys"

definition ohe_fit_transform :: "int list \<Rightarrow> error + rat list list" where
  "ohe_fit_transform ys = (if ys = [] then Inl ValueError else Inr (ohe_transform (ohe_fit ys) ys))"

text \<open>The keyword arguments of the call \<^verbatim>\<open>self.model.fit(...)\<close>.\<close>

record 'x fit_call =
  fit_x :: "'x list"
  fit_y :: "rat list list"
  fit_batch_size :: int
  fit_epochs :: int
  fit_validation_data :: "('x list option \<times> rat list list) option"

text \<open>
  \<^verbatim>\<open>fit\<close> up to the call of \<^verbatim>\<open>self.model.fit\<close>. \<open>xtrain\<close> is the list of its samples
  (\<^verbatim>\<open>xtrain.shape[0]\<close> is its length); \<open>xval\<close> and \<open>yval\<close> default to \<^verbatim>\<open>None\<close>. The plots drawn
  after training are left out.
\<close>

definition fit ::
  "hinception \<Rightarrow> 'x list \<Rightarrow> int list \<Rightarrow> 'x list option \<Rightarrow> int list option \<Rightarrow> bool
   \<Rightarrow> error + 'x fit_call" where
  "fit self xtrain ytrain xval yval plot_test =
     (let n = int (length xtrain);
          mini_batch_size = min (batch_size self) (n div 10)
      in bind_err (ohe_fit_transform ytrain) (\<lambda>ytrain'.
         if plot_test then
           bind_err (case yval of None \<Rightarrow> Inl AxisError | Some yv \<Rightarrow> ohe_fit_transform yv) (\<lambda>yval'.
             Inr \<lparr>fit_x = xtrain, fit_y = ytrain', fit_batch_size = mini_batch_size,
                  fit_epochs = epochs self, fit_validation_data = Some (xval, yval')\<rparr>)
         else
           Inr \<lparr>fit_x = xtrain, fit_y = ytrain', fit_batch_size = mini_batch_size,
                fit_epochs = epochs self, fit_validation_data = None\<rparr>))"

subsection \<open>Notions used in the statements\<close>

text \<open>\<^verbatim>\<open>xs[lo:hi]\<close> for indices that are not negative.\<close>

definition py_slice :: "nat \<Rightarrow> nat \<Rightarrow> 'a list \<Rightarrow> 'a list" where
  "py_slice lo hi xs = take (hi - lo) (drop lo xs)"

text \<open>The array of shape \<open>(length v, c, 1)\<close> whose tap \<open>i\<close> holds \<open>v ! i\<close> on every channel.\<close>

definition rows :: "nat \<Rightarrow> rat list \<Rightarrow> ndarray3" where
  "rows c v = map (\<lambda>x. replicate c [x]) v"

text \<open>\<^verbatim>\<open>filter_left = xmesh**2\<close>\<close>

definition quadratic_ramp :: "nat \<Rightarrow> rat list" where
  "quadratic_ramp kernel_size = map (\<lambda>x. x ^ 2) (xmesh kernel_size)"

text \<open>
  What is read off the list of layers: the hybrid convolutions (the layers created with an
  explicit name), each with its name, the length of its kernel and the tensor it reads; and
  the number of \<^verbatim>\<open>Add\<close> layers, one per shortcut module.
\<close>

fun hybrid_conv_info :: "layer \<Rightarrow> (layer_name \<times> nat \<times> nat) option" where
  "hybrid_conv_info (Conv1D f ks kinit tr (Some nm) inb) = Some (nm, ks, inb)"
| "hybrid_conv_info _ = None"

definition hybrid_convs :: "layer list \<Rightarrow> (layer_name \<times> nat \<times> nat) list" where
  "hybrid_convs ls = List.map_filter hybrid_conv_info ls"

fun is_Add :: "layer \<Rightarrow> bool" where
  "is_Add (Add a b) = True"
| "is_Add _ = False"

definition shortcut_count :: "layer list \<Rightarrow> nat" where
  "shortcut_count ls = length (filter is_Add ls)"

text \<open>
  The hybrid convolutions one loop of \<^verbatim>\<open>hybrid_layer\<close> creates for a family, reading tensor
  \<open>inb\<close>, when \<^verbatim>\<open>keep_track\<close> is \<open>kt\<close> at its start; and those of one whole call.
\<close>

definition custom_conv_entries ::
  "family \<Rightarrow> nat \<Rightarrow> nat \<Rightarrow> nat list \<Rightarrow> (layer_name \<times> nat \<times> nat) list" where
  "custom_conv_entries fam inb kt ks =
     map (\<lambda>(i, k). ((family_prefix fam, kt + i, k), conv_kernel_size fam k, inb))
       (zip [0..<length ks] ks)"

definition hybrid_entries :: "nat \<Rightarrow> nat \<Rightarrow> nat list \<Rightarrow> (layer_name \<times> nat \<times> nat) list" where
  "hybrid_entries inb kt ks =
     custom_conv_entries Increasing inb kt ks @
     custom_conv_entries Decreasing inb (kt + length ks) ks @
     custom_conv_entries Peak inb (kt + length ks + length ks) (drop 1 ks)"

text \<open>
  The order in which modules were built, read off the list of layers: every call of
  \<^verbatim>\<open>_inception_module\<close> creates exactly one \<^verbatim>\<open>MaxPool1D\<close> layer and every call of
  \<^verbatim>\<open>_shortcut_layer\<close> exactly one \<^verbatim>\<open>Add\<close> layer, and nothing else creates either.
\<close>

datatype event = ModuleBuilt | ShortcutAdded

fun layer_event :: "layer \<Rightarrow> event option" where
  "layer_event (MaxPool1D p i) = Some ModuleBuilt"
| "layer_event (Add a b) = Some ShortcutAdded"
| "layer_event l = None"

definition assembly_trace :: "layer list \<Rightarrow> event list" where
  "assembly_trace ls = List.map_filter layer_event ls"

text \<open>The test of line 228: a shortcut module follows the module of index \<open>d\<close>.\<close>

definition shortcut_due :: "hinception \<Rightarrow> int \<Rightarrow> bool" where
  "shortcut_due self d = (use_residual self \<and> d mod 3 = 2)"

text \<open>
  The tensor \<^verbatim>\<open>input_layer\<close> and the state in which the loop of \<^verbatim>\<open>build_model\<close> starts:
  the input layer is the only layer, \<^verbatim>\<open>keep_track\<close> is 0 and \<^verbatim>\<open>self.hybrid\<close> is not set.
\<close>

definition input_tensor0 :: "hinception \<Rightarrow> ktensor" where
  "input_tensor0 self = \<lparr>tid = 0, steps = length_TS self, channels = 1\<rparr>"

definition state1 :: "hinception \<Rightarrow> build_state" where
  "state1 self = \<lparr>layers = [Input (length_TS self) 1], keep_track = 0, hybrid = None\<rparr>"

section \<open>The trend filters\<close>

lemma imul_mask_nth:
  "i < length bs \<Longrightarrow> length bs = length a \<Longrightarrow>
   imul_mask bs c a ! i = (if bs ! i then map (map (\<lambda>w. w * c)) (a ! i) else a ! i)"
  by (simp add: imul_mask_def)

lemma increasing_filter_nth:
  "i < k \<Longrightarrow> increasing_filter k c ! i = replicate c [if odd i then 1 else - 1]"
  by (simp add: increasing_filter_def np_ones_def np_arange_def imul_mask_nth even_iff_mod_2_eq_zero)

lemma decreasing_filter_nth:
  "i < k \<Longrightarrow> decreasing_filter k c ! i = replicate c [if odd i then - 1 else 1]"
  by (simp add: decreasing_filter_def np_ones_def np_arange_def imul_mask_nth odd_iff_mod_2_eq_one)

lemma length_increasing_filter: "length (increasing_filter k c) = k"
  by (simp add: increasing_filter_def np_ones_def np_arange_def imul_mask_def)

lemma length_decreasing_filter: "length (decreasing_filter k c) = k"
  by (simp add: decreasing_filter_def np_ones_def np_arange_def imul_mask_def)

lemma decreasing_is_negated_increasing:
  "decreasing_filter k c = map (map (map uminus)) (increasing_filter k c)"
  by (rule nth_equalityI)
     (simp_all add: length_increasing_filter length_decreasing_filter
        increasing_filter_nth decreasing_filter_nth)

text \<open>
  Claim C4. For every kernel length \<open>k\<close> and every number \<open>c\<close> of input channels, the
  increasing-trend kernel has \<open>k\<close> taps of \<open>c\<close> channels and holds \<open>+1\<close> at every odd tap and
  \<open>-1\<close> at every even tap (counted from 0), on every channel; the decreasing-trend kernel
  of the same length holds the opposite sign at every tap of every channel, and is as a
  whole the negated increasing-trend kernel.
\<close>

theorem trend_kernels_sign_pattern:
  "length (increasing_filter k c) = k \<and>
   length (decreasing_filter k c) = k \<and>
   (\<forall>i < k. length (increasing_filter k c ! i) = c \<and> length (decreasing_filter k c ! i) = c \<and>
      (\<forall>ch < c. increasing_filter k c ! i ! ch = [if odd i then 1 else - 1] \<and>
                 decreasing_filter k c ! i ! ch = [- (if odd i then 1 else - 1)])) \<and>
   decreasing_filter k c = map (map (map uminus)) (increasing_filter k c)"
  using decreasing_is_negated_increasing[of k c]
  by (simp add: length_increasing_filter length_decreasing_filter
        increasing_filter_nth decreasing_filter_nth)

theorem trend_kernels_sign_pattern_witness:
  "increasing_filter 4 2 = [[[- 1], [- 1]], [[1], [1]], [[- 1], [- 1]], [[1], [1]]] \<and>
   decreasing_filter 4 2 = [[[1], [1]], [[- 1], [- 1]], [[1], [1]], [[- 1], [- 1]]] \<and>
   decreasing_filter 4 2 = map (map (map uminus)) (increasing_filter 4 2) \<and>
   increasing_filter 4 2 ! 1 ! 0 = [1] \<and> decreasing_filter 4 2 ! 1 ! 0 = [- 1]"
proof -
  have inc: "increasing_filter 4 2 = [[[- 1], [- 1]], [[1], [1]], [[- 1], [- 1]], [[1], [1]]]"
    by code_simp
  have dec: "decreasing_filter 4 2 = [[[1], [1]], [[- 1], [- 1]], [[1], [1]], [[- 1], [- 1]]]"
    by code_simp
  have "(1::nat) < 4" "(0::nat) < 2" by simp_all
  with trend_kernels_sign_pattern[of 4 2]
  have "decreasing_filter 4 2 = map (map (map uminus)) (increasing_filter 4 2) \<and>
        increasing_filter 4 2 ! 1 ! 0 = [1] \<and> decreasing_filter 4 2 ! 1 ! 0 = [- 1]"
    by auto
  with inc dec show ?thesis by blast
qed

section \<open>The peak filter\<close>

lemma set_slice_block:
  "length A = lo \<Longrightarrow> lo + length B = hi \<Longrightarrow> length v = length B \<Longrightarrow>
   set_slice lo hi v (A @ B @ D) = Inr (A @ map (\<lambda>(x, row). fill x row) (zip v B) @ D)"
  by (auto simp: set_slice_def Let_def min_def)

lemma fill_zero_rows:
  "length v = n \<Longrightarrow>
   map (\<lambda>(x, row). fill x row) (zip v (replicate n (replicate c [z]))) = map (\<lambda>x. replicate c [x]) v"
  by (induction v arbitrary: n) (auto simp: fill_def)

lemma set_slice_zero_block:
  assumes "length A = lo" "lo + n = hi" "length v = n"
  shows "set_slice lo hi v (A @ replicate n (replicate c [0]) @ D) = Inr (A @ rows c v @ D)"
  using set_slice_block[of A lo "replicate n (replicate c [0])" hi v D] assms
  by (simp add: fill_zero_rows rows_def)

lemma xmesh_points:
  "0 < n \<Longrightarrow> xmesh (4 * n) = map (\<lambda>j. of_nat j / of_nat n) [1..<n + 1]"
  by (simp add: xmesh_def np_linspace01_def drop_map del: upt_Suc)

lemma xmesh_in_unit_interval:
  assumes "0 < n"
  shows "list_all (\<lambda>x. 0 < x \<and> x \<le> 1) (xmesh (4 * n))"
  using assms by (auto simp: xmesh_points list_all_iff)

lemma length_rows: "length (rows c v) = length v"
  by (simp add: rows_def)

lemma length_quadratic_ramp: "0 < n \<Longrightarrow> length (quadratic_ramp (4 * n)) = n"
  by (simp add: quadratic_ramp_def xmesh_points)

text \<open>
  For a kernel size \<open>4 * n\<close> the six slice assignments all succeed, each on a slice of \<open>n\<close>
  taps, and the array is the concatenation of the six blocks.
\<close>

lemma peak_filter_closed_form:
  assumes "0 < n"
  shows "peak_filter (4 * n) c =
     (let ramp = quadratic_ramp (4 * n) in
      Inr (rows c (map uminus ramp) @ rows c (map uminus (rev ramp)) @
           rows c (map ((*) 2) ramp) @ rows c (map ((*) 2) (rev ramp)) @
           rows c (map uminus ramp) @ rows c (map uminus (rev ramp))))"
proof -
  define z where "z = replicate n (replicate c [0::rat])"
  define ramp where "ramp = quadratic_ramp (4 * n)"
  have len: "length ramp = n" using assms by (simp add: ramp_def length_quadratic_ramp)
  have lz: "length z = n" by (simp add: z_def)
  have f0: "np_zeros (4 * n + 2 * n) c = z @ z @ z @ z @ z @ z"
    by (simp add: np_zeros_def z_def replicate_add[symmetric])
  have d2: "4 * n div 2 = 2 * n" "4 * n div 4 = n" "3 * (4 * n) div 4 = 3 * n"
    "5 * (4 * n) div 4 = 5 * n"
    by simp_all
  have lr: "length (rows c v) = length v" for v by (simp add: rows_def)
  let ?a = "rows c (map uminus ramp)" and ?b = "rows c (map uminus (rev ramp))"
  let ?p = "rows c (map ((*) 2) ramp)" and ?q = "rows c (map ((*) 2) (rev ramp))"
  have s1: "set_slice 0 n (map uminus ramp) (z @ z @ z @ z @ z @ z)
            = Inr (?a @ z @ z @ z @ z @ z)"
    using set_slice_zero_block[of "[]" 0 n n "map uminus ramp" c "z @ z @ z @ z @ z"] len
    by (simp add: z_def)
  have s2: "set_slice n (2 * n) (map uminus (rev ramp)) (?a @ z @ z @ z @ z @ z)
            = Inr (?a @ ?b @ z @ z @ z @ z)"
    using set_slice_zero_block[of ?a n n "2 * n" "map uminus (rev ramp)" c "z @ z @ z @ z"] len
    by (simp add: z_def lr)
  have s3: "set_slice (2 * n) (3 * n) (map ((*) 2) ramp) (?a @ ?b @ z @ z @ z @ z)
            = Inr (?a @ ?b @ ?p @ z @ z @ z)"
    using set_slice_zero_block[of "?a @ ?b" "2 * n" n "3 * n" "map ((*) 2) ramp" c "z @ z @ z"] len
    by (simp add: z_def lr)
  have s4: "set_slice (3 * n) (4 * n) (map ((*) 2) (rev ramp)) (?a @ ?b @ ?p @ z @ z @ z)
            = Inr (?a @ ?b @ ?p @ ?q @ z @ z)"
    using set_slice_zero_block[of "?a @ ?b @ ?p" "3 * n" n "4 * n" "map ((*) 2) (rev ramp)" c "z @ z"] len
    by (simp add: z_def lr)
  have s5: "set_slice (4 * n) (5 * n) (map uminus ramp) (?a @ ?b @ ?p @ ?q @ z @ z)
            = Inr (?a @ ?b @ ?p @ ?q @ ?a @ z)"
    using set_slice_zero_block[of "?a @ ?b @ ?p @ ?q" "4 * n" n "5 * n" "map uminus ramp" c "z"] len
    by (simp add: z_def lr)
  have s6: "set_slice (5 * n) (6 * n) (map uminus (rev ramp)) (?a @ ?b @ ?p @ ?q @ ?a @ z)
            = Inr (?a @ ?b @ ?p @ ?q @ ?a @ ?b)"
    using set_slice_zero_block[of "?a @ ?b @ ?p @ ?q @ ?a" "5 * n" n "6 * n" "map uminus (rev ramp)" c "[]"] len
    by (simp add: z_def lr)
  have l5: "length (?a @ ?b @ ?p @ ?q @ ?a @ z) = 6 * n"
    using len by (simp add: lr lz)
  show ?thesis
    unfolding peak_filter_def Let_def d2 f0 quadratic_ramp_def[symmetric] ramp_def[symmetric]
    by (simp only: s1 s2 s3 s4 s5 bind_err_def sum.case l5 s6)
qed

lemma peak_filter_segments_4n:
  assumes "0 < n"
  defines "ramp \<equiv> quadratic_ramp (4 * n)"
  shows "\<exists>f. peak_filter (4 * n) c = Inr f \<and> length f = 6 * n \<and>
     py_slice 0 n f = rows c (map uminus ramp) \<and>
     py_slice n (2 * n) f = rows c (map uminus (rev ramp)) \<and>
     py_slice (2 * n) (3 * n) f = rows c (map ((*) 2) ramp) \<and>
     py_slice (3 * n) (4 * n) f = rows c (map ((*) 2) (rev ramp)) \<and>
     py_slice (4 * n) (5 * n) f = rows c (map uminus ramp) \<and>
     py_slice (5 * n) (length f) f = rows c (map uminus (rev ramp))"
proof -
  have len: "length ramp = n" using assms by (simp add: length_quadratic_ramp)
  show ?thesis
    unfolding peak_filter_closed_form[OF assms(1)] Let_def ramp_def[symmetric]
    by (simp add: py_slice_def length_rows len)
qed

text \<open>
  Claim C5. For every peak kernel length \<open>K\<close> (a multiple of 4, at least 4) the kernel is
  built, over \<open>K + K div 2\<close> taps, from the ramp \<open>xmesh\<close> of \<open>K div 4\<close> equally spaced points
  \<open>j / (K div 4)\<close>, \<open>j = 1, \<dots>, K div 4\<close>, all in \<open>(0, 1]\<close>, squared. Its six contiguous
  segments, cut at \<open>K div 4\<close>, \<open>K div 2\<close>, \<open>3 * K div 4\<close>, \<open>K\<close> and \<open>5 * K div 4\<close>, hold in this
  order: the negated ramp, the negated reversed ramp, twice the ramp, twice the reversed
  ramp, the negated ramp, the negated reversed ramp, each on every input channel.
\<close>

theorem peak_kernel_six_segments:
  assumes "4 dvd K" and "4 \<le> K"
  shows "\<exists>f. peak_filter K c = Inr f \<and> length f = K + K div 2 \<and>
     xmesh K = map (\<lambda>j. of_nat j / of_nat (K div 4)) [1..<K div 4 + 1] \<and>
     list_all (\<lambda>x. 0 < x \<and> x \<le> 1) (xmesh K) \<and>
     quadratic_ramp K = map (\<lambda>x. x ^ 2) (xmesh K) \<and>
     py_slice 0 (K div 4) f = rows c (map uminus (quadratic_ramp K)) \<and>
     py_slice (K div 4) (K div 2) f = rows c (map uminus (rev (quadratic_ramp K))) \<and>
     py_slice (K div 2) (3 * K div 4) f = rows c (map ((*) 2) (quadratic_ramp K)) \<and>
     py_slice (3 * K div 4) K f = rows c (map ((*) 2) (rev (quadratic_ramp K))) \<and>
     py_slice K (5 * K div 4) f = rows c (map uminus (quadratic_ramp K)) \<and>
     py_slice (5 * K div 4) (length f) f = rows c (map uminus (rev (quadratic_ramp K)))"
proof -
  from assms obtain n where K: "K = 4 * n" and n: "0 < n" by (auto simp: dvd_def)
  have d: "4 * n div 4 = n" "4 * n div 2 = 2 * n" "3 * (4 * n) div 4 = 3 * n"
    "5 * (4 * n) div 4 = 5 * n" "4 * n + 2 * n = 6 * n"
    by simp_all
  from peak_filter_segments_4n[OF n, of c] obtain f where
    f: "peak_filter (4 * n) c = Inr f" "length f = 6 * n"
       "py_slice 0 n f = rows c (map uminus (quadratic_ramp (4 * n)))"
       "py_slice n (2 * n) f = rows c (map uminus (rev (quadratic_ramp (4 * n))))"
       "py_slice (2 * n) (3 * n) f = rows c (map ((*) 2) (quadratic_ramp (4 * n)))"
       "py_slice (3 * n) (4 * n) f = rows c (map ((*) 2) (rev (quadratic_ramp (4 * n))))"
       "py_slice (4 * n) (5 * n) f = rows c (map uminus (quadratic_ramp (4 * n)))"
       "py_slice (5 * n) (length f) f = rows c (map uminus (rev (quadratic_ramp (4 * n))))"
    by blast
  have x: "xmesh (4 * n) = map (\<lambda>j. of_nat j / of_nat n) [1..<n + 1]"
    by (rule xmesh_points[OF n])
  have q: "quadratic_ramp (4 * n) = map (\<lambda>x. x ^ 2) (xmesh (4 * n))"
    by (simp add: quadratic_ramp_def)
  show ?thesis
    unfolding K d
    using f x xmesh_in_unit_interval[OF n] q by (intro exI[of _ f]) simp
qed

theorem peak_kernel_six_segments_witness:
  "(4::nat) dvd 8 \<and> (4::nat) \<le> 8 \<and>
   peak_filter 8 1 =
     Inr [[[- (1 / 4)]], [[- 1]], [[- 1]], [[- (1 / 4)]], [[1 / 2]], [[2]],
          [[2]], [[1 / 2]], [[- (1 / 4)]], [[- 1]], [[- 1]], [[- (1 / 4)]]] \<and>
   xmesh 8 = [1 / 2, 1] \<and> quadratic_ramp 8 = [1 / 4, 1] \<and>
   (\<exists>f. peak_filter 8 1 = Inr f \<and> length f = 8 + 8 div 2 \<and>
     xmesh 8 = map (\<lambda>j. of_nat j / of_nat (8 div 4)) [1..<8 div 4 + 1] \<and>
     list_all (\<lambda>x. 0 < x \<and> x \<le> 1) (xmesh 8) \<and>
     quadratic_ramp 8 = map (\<lambda>x. x ^ 2) (xmesh 8) \<and>
     py_slice 0 (8 div 4) f = rows 1 (map uminus (quadratic_ramp 8)) \<and>
     py_slice (8 div 4) (8 div 2) f = rows 1 (map uminus (rev (quadratic_ramp 8))) \<and>
     py_slice (8 div 2) (3 * 8 div 4) f = rows 1 (map ((*) 2) (quadratic_ramp 8)) \<and>
     py_slice (3 * 8 div 4) 8 f = rows 1 (map ((*) 2) (rev (quadratic_ramp 8))) \<and>
     py_slice 8 (5 * 8 div 4) f = rows 1 (map uminus (quadratic_ramp 8)) \<and>
     py_slice (5 * 8 div 4) (length f) f = rows 1 (map uminus (rev (quadratic_ramp 8))))"
proof (intro conjI)
  show "(4::nat) dvd 8" by simp
  show "(4::nat) \<le> 8" by simp
  show "peak_filter 8 1 =
     Inr [[[- (1 / 4)]], [[- 1]], [[- 1]], [[- (1 / 4)]], [[1 / 2]], [[2]],
          [[2]], [[1 / 2]], [[- (1 / 4)]], [[- 1]], [[- 1]], [[- (1 / 4)]]]"
    by code_simp
  show "xmesh 8 = [1 / 2, 1]" by code_simp
  show "quadratic_ramp 8 = [1 / 4, 1]" by code_simp
  show "\<exists>f. peak_filter 8 1 = Inr f \<and> length f = 8 + 8 div 2 \<and>
     xmesh 8 = map (\<lambda>j. of_nat j / of_nat (8 div 4)) [1..<8 div 4 + 1] \<and>
     list_all (\<lambda>x. 0 < x \<and> x \<le> 1) (xmesh 8) \<and>
     quadratic_ramp 8 = map (\<lambda>x. x ^ 2) (xmesh 8) \<and>
     py_slice 0 (8 div 4) f = rows 1 (map uminus (quadratic_ramp 8)) \<and>
     py_slice (8 div 4) (8 div 2) f = rows 1 (map uminus (rev (quadratic_ramp 8))) \<and>
     py_slice (8 div 2) (3 * 8 div 4) f = rows 1 (map ((*) 2) (quadratic_ramp 8)) \<and>
     py_slice (3 * 8 div 4) 8 f = rows 1 (map ((*) 2) (rev (quadratic_ramp 8))) \<and>
     py_slice 8 (5 * 8 div 4) f = rows 1 (map uminus (quadratic_ramp 8)) \<and>
     py_slice (5 * 8 div 4) (length f) f = rows 1 (map uminus (rev (quadratic_ramp 8)))"
    by (rule peak_kernel_six_segments) simp_all
qed

lemma rows_not_self_negated:
  assumes "v \<noteq> []" "0 < c" "hd v \<noteq> 0"
  shows "rows c v \<noteq> map (map (map uminus)) (rows c v)"
proof -
  from assms obtain x xs c' where v: "v = x # xs" and c: "c = Suc c'" and x: "x \<noteq> 0"
    by (cases v; cases c) auto
  show ?thesis using x by (simp add: v c rows_def)
qed

lemma hd_quadratic_ramp_pos:
  assumes "0 < n"
  shows "quadratic_ramp (4 * n) \<noteq> [] \<and> 0 < hd (quadratic_ramp (4 * n))"
  using assms by (simp add: quadratic_ramp_def xmesh_points upt_conv_Cons del: upt_Suc)

text \<open>
  Claim C2, as the code has it. For every peak kernel length \<open>K\<close> (a multiple of 4, at least
  4) the peak kernel has exactly \<open>K + K div 2\<close> taps, and segment 1 (taps \<open>[0, K div 4)\<close>) and
  segment 5 (taps \<open>[K, 5 * K div 4)\<close>) hold the same values, the negated ramp: segment 1
  equals segment 5, and on at least one input channel it is not the negation of segment 5.
\<close>

theorem peak_kernel_length_and_flanks:
  assumes "4 dvd K" and "4 \<le> K"
  shows "\<exists>f. peak_filter K c = Inr f \<and> length f = K + K div 2 \<and>
     py_slice 0 (K div 4) f = rows c (map uminus (quadratic_ramp K)) \<and>
     py_slice K (5 * K div 4) f = rows c (map uminus (quadratic_ramp K)) \<and>
     py_slice 0 (K div 4) f = py_slice K (5 * K div 4) f \<and>
     (0 < c \<longrightarrow> py_slice 0 (K div 4) f \<noteq> map (map (map uminus)) (py_slice K (5 * K div 4) f))"
proof -
  from assms obtain n where K: "K = 4 * n" and n: "0 < n" by (auto simp: dvd_def)
  have d: "4 * n div 4 = n" "4 * n div 2 = 2 * n" "5 * (4 * n) div 4 = 5 * n" "4 * n + 2 * n = 6 * n"
    by simp_all
  from peak_filter_segments_4n[OF n, of c] obtain f where
    f: "peak_filter (4 * n) c = Inr f" "length f = 6 * n"
       "py_slice 0 n f = rows c (map uminus (quadratic_ramp (4 * n)))"
       "py_slice (4 * n) (5 * n) f = rows c (map uminus (quadratic_ramp (4 * n)))"
    by blast
  have ne: "rows c (map uminus (quadratic_ramp (4 * n))) \<noteq>
            map (map (map uminus)) (rows c (map uminus (quadratic_ramp (4 * n))))" if "0 < c"
    using hd_quadratic_ramp_pos[OF n] that
    by (intro rows_not_self_negated) (auto simp: hd_map)
  show ?thesis
    unfolding K d using f ne by (intro exI[of _ f]) simp
qed

theorem peak_kernel_length_and_flanks_witness:
  "(4::nat) dvd 4 \<and> (4::nat) \<le> 4 \<and>
   peak_filter 4 1 = Inr [[[- 1]], [[- 1]], [[2]], [[2]], [[- 1]], [[- 1]]] \<and>
   quadratic_ramp 4 = [1] \<and>
   (\<exists>f. peak_filter 4 1 = Inr f \<and> length f = 4 + 4 div 2 \<and>
     py_slice 0 (4 div 4) f = rows 1 (map uminus (quadratic_ramp 4)) \<and>
     py_slice 4 (5 * 4 div 4) f = rows 1 (map uminus (quadratic_ramp 4)) \<and>
     py_slice 0 (4 div 4) f = py_slice 4 (5 * 4 div 4) f \<and>
     (0 < (1::nat) \<longrightarrow> py_slice 0 (4 div 4) f \<noteq> map (map (map uminus)) (py_slice 4 (5 * 4 div 4) f)))"
proof (intro conjI)
  show "(4::nat) dvd 4" by simp
  show "(4::nat) \<le> 4" by simp
  show "peak_filter 4 1 = Inr [[[- 1]], [[- 1]], [[2]], [[2]], [[- 1]], [[- 1]]]" by code_simp
  show "quadratic_ramp 4 = [1]" by code_simp
  show "\<exists>f. peak_filter 4 1 = Inr f \<and> length f = 4 + 4 div 2 \<and>
     py_slice 0 (4 div 4) f = rows 1 (map uminus (quadratic_ramp 4)) \<and>
     py_slice 4 (5 * 4 div 4) f = rows 1 (map uminus (quadratic_ramp 4)) \<and>
     py_slice 0 (4 div 4) f = py_slice 4 (5 * 4 div 4) f \<and>
     (0 < (1::nat) \<longrightarrow> py_slice 0 (4 div 4) f \<noteq> map (map (map uminus)) (py_slice 4 (5 * 4 div 4) f))"
    by (rule peak_kernel_length_and_flanks) simp_all
qed

text \<open>
  The claim as it is written fails at \<open>K = 4\<close> on one input channel: segment 1 and segment 5
  are both \<open>[-1]\<close>, and the negation of segment 5 is \<open>[1]\<close>.
\<close>

theorem peak_segment1_is_not_negated_segment5:
  "peak_filter 4 1 = Inr [[[- 1]], [[- 1]], [[2]], [[2]], [[- 1]], [[- 1]]] \<and>
   length [[[- 1]], [[- 1]], [[2]], [[2]], [[- 1]], [[- 1::rat]]] = 4 + 4 div 2 \<and>
   py_slice 0 (4 div 4) [[[- 1]], [[- 1]], [[2]], [[2]], [[- 1]], [[- 1::rat]]] = [[[- 1]]] \<and>
   py_slice 4 (5 * 4 div 4) [[[- 1]], [[- 1]], [[2]], [[2]], [[- 1]], [[- 1::rat]]] = [[[- 1]]] \<and>
   py_slice 0 (4 div 4) [[[- 1]], [[- 1]], [[2]], [[2]], [[- 1]], [[- 1::rat]]] \<noteq>
     map (map (map uminus)) (py_slice 4 (5 * 4 div 4) [[[- 1]], [[- 1]], [[2]], [[2]], [[- 1]], [[- 1::rat]]])"
proof (intro conjI)
  show "peak_filter 4 1 = Inr [[[- 1]], [[- 1]], [[2]], [[2]], [[- 1]], [[- 1]]]" by code_simp
qed (simp_all add: py_slice_def)

section \<open>The graph that \<^verbatim>\<open>build_model\<close> builds\<close>

lemma hybrid_convs_append: "hybrid_convs (xs @ ys) = hybrid_convs xs @ hybrid_convs ys"
  by (simp add: hybrid_convs_def map_filter_def)

lemma shortcut_count_append: "shortcut_count (xs @ ys) = shortcut_count xs + shortcut_count ys"
  by (simp add: shortcut_count_def)

lemma custom_conv_entries_Cons:
  "custom_conv_entries fam inb kt (k # ks) =
     ((family_prefix fam, kt, k), conv_kernel_size fam k, inb) # custom_conv_entries fam inb (Suc kt) ks"
proof -
  have "zip [0..<Suc (length ks)] (k # ks) = (0, k) # map (\<lambda>(i, k). (Suc i, k)) (zip [0..<length ks] ks)"
    by (simp add: upt_conv_Cons map_Suc_upt[symmetric] zip_map1 del: upt_Suc)
  then show ?thesis by (simp add: custom_conv_entries_def split_def comp_def)
qed

lemma assembly_trace_append: "assembly_trace (xs @ ys) = assembly_trace xs @ assembly_trace ys"
  by (simp add: assembly_trace_def map_filter_def)

lemmas layer_call_defs =
  keras_Input_def keras_MaxPool1D_def keras_BatchNormalization_def
  keras_Activation_def call_layer_def

lemmas observe_defs = hybrid_convs_def shortcut_count_def assembly_trace_def map_filter_def

lemma keras_Conv1D_ok:
  "0 < f \<Longrightarrow> 0 < k \<Longrightarrow>
   keras_Conv1D f k ki tr nm x s = Inr (call_layer (Conv1D f k ki tr nm (tid x)) (steps x) f s)"
  by (simp add: keras_Conv1D_def)

lemma custom_convs_ok:
  assumes "list_all (\<lambda>k. \<exists>w. custom_filter fam k c = Inr w) ks"
    and "list_all (\<lambda>k. 0 < k) ks"
  shows "\<exists>convs s'. custom_convs fam x c ks s = Inr (convs, s') \<and>
           length convs = length ks \<and>
           list_all (\<lambda>t. steps t = steps x \<and> channels t = 1) convs \<and>
           keep_track s' = keep_track s + length ks \<and>
           hybrid s' = hybrid s \<and>
           hybrid_convs (layers s') = hybrid_convs (layers s) @ custom_conv_entries fam (tid x) (keep_track s) ks \<and>
           shortcut_count (layers s') = shortcut_count (layers s) \<and>
           assembly_trace (layers s') = assembly_trace (layers s)"
  using assms
proof (induction ks arbitrary: s)
  case Nil
  then show ?case by (simp add: custom_conv_entries_def)
next
  case (Cons k ks)
  from Cons.prems obtain w where w: "custom_filter fam k c = Inr w"
    and rest: "list_all (\<lambda>k. \<exists>w. custom_filter fam k c = Inr w) ks" "list_all (\<lambda>k. 0 < k) ks"
    and k: "0 < k"
    by auto
  have kk: "0 < conv_kernel_size fam k" using k by (cases fam) (simp_all add: conv_kernel_size_def)
  let ?l = "Conv1D 1 (conv_kernel_size fam k) (Some w) False (Some (family_prefix fam, keep_track s, k)) (tid x)"
  let ?conv = "\<lparr>tid = length (layers s), steps = steps x, channels = 1\<rparr>"
  define s2 where "s2 = s\<lparr>layers := layers s @ [?l], keep_track := Suc (keep_track s)\<rparr>"
  have cv: "keras_Conv1D 1 (conv_kernel_size fam k) (Some w) False
              (Some (family_prefix fam, keep_track s, k)) x s = Inr (?conv, s\<lparr>layers := layers s @ [?l]\<rparr>)"
    using kk by (simp add: keras_Conv1D_def call_layer_def)
  have s2: "layers s2 = layers s @ [?l]" "keep_track s2 = Suc (keep_track s)" "hybrid s2 = hybrid s"
    by (simp_all add: s2_def)
  from Cons.IH[OF rest, of s2] obtain convs s' where
    ih: "custom_convs fam x c ks s2 = Inr (convs, s')" "length convs = length ks"
        "list_all (\<lambda>t. steps t = steps x \<and> channels t = 1) convs"
        "keep_track s' = keep_track s2 + length ks" "hybrid s' = hybrid s2"
        "hybrid_convs (layers s') = hybrid_convs (layers s2) @ custom_conv_entries fam (tid x) (keep_track s2) ks"
        "shortcut_count (layers s') = shortcut_count (layers s2)"
        "assembly_trace (layers s') = assembly_trace (layers s2)"
    by blast
  have "custom_convs fam x c (k # ks) s = Inr (?conv # convs, s')"
    using ih(1) cv by (simp add: w bind_err_def Let_def s2_def)
  then show ?case
    using ih s2
    by (simp add: hybrid_convs_append shortcut_count_append assembly_trace_append
          custom_conv_entries_Cons observe_defs)
qed

lemma peak_filter_ok: "4 dvd k \<Longrightarrow> 0 < k \<Longrightarrow> \<exists>w. peak_filter k c = Inr w"
  using peak_filter_closed_form[of "k div 4" c] by (auto simp: Let_def dvd_def)

lemma custom_filters_default_ok:
  "list_all (\<lambda>k. \<exists>w. custom_filter Increasing k c = Inr w) default_kernel_sizes"
  "list_all (\<lambda>k. \<exists>w. custom_filter Decreasing k c = Inr w) default_kernel_sizes"
  "list_all (\<lambda>k. \<exists>w. custom_filter Peak k c = Inr w) (drop 1 default_kernel_sizes)"
  by (simp_all add: custom_filter_def default_kernel_sizes_def peak_filter_ok)

lemma sum_channels_ones:
  "list_all (\<lambda>t. steps t = n \<and> channels t = c) ts \<Longrightarrow> sum_list (map channels ts) = c * length ts"
  by (induction ts) auto


lemma keras_Concatenate_ok:
  "ts \<noteq> [] \<Longrightarrow> list_all (\<lambda>t. steps t = n) ts \<Longrightarrow>
   keras_Concatenate ts s = Inr (call_layer (Concatenate (map tid ts)) n (sum_list (map channels ts)) s)"
  by (cases ts) (auto simp: keras_Concatenate_def list_all_iff)

lemma custom_filter_trend_ok:
  "list_all (\<lambda>k. \<exists>w. custom_filter Increasing k c = Inr w) ks"
  "list_all (\<lambda>k. \<exists>w. custom_filter Decreasing k c = Inr w) ks"
  by (simp_all add: custom_filter_def list_all_iff)

lemma list_all_steps_weaken:
  "list_all (\<lambda>t. steps t = n \<and> channels t = c) ts \<Longrightarrow> list_all (\<lambda>t. steps t = n) ts"
  by (simp add: list_all_iff)

lemma default_kernel_sizes_pos:
  "list_all (\<lambda>k. 0 < k) default_kernel_sizes" "list_all (\<lambda>k. 0 < k) (drop 1 default_kernel_sizes)"
  by (simp_all add: default_kernel_sizes_def)

lemma hybrid_layer_ok:
  assumes pk: "list_all (\<lambda>k. \<exists>w. custom_filter Peak k c = Inr w) (drop 1 ks)" and ne: "ks \<noteq> []"
    and pos: "list_all (\<lambda>k. 0 < k) ks"
  shows "\<exists>h s'. hybrid_layer x c ks s = Inr (h, s') \<and> steps h = steps x \<and>
           channels h = 2 * length ks + (length ks - 1) \<and>
           keep_track s' = keep_track s + (2 * length ks + (length ks - 1)) \<and>
           hybrid s' = hybrid s \<and>
           hybrid_convs (layers s') = hybrid_convs (layers s) @ hybrid_entries (tid x) (keep_track s) ks \<and>
           shortcut_count (layers s') = shortcut_count (layers s) \<and>
           assembly_trace (layers s') = assembly_trace (layers s)"
proof -
  have pos1: "list_all (\<lambda>k. 0 < k) (drop 1 ks)"
    using pos by (auto simp: list_all_iff dest: in_set_dropD)
  from custom_convs_ok[where x=x and s=s, OF custom_filter_trend_ok(1)[of c ks] pos] obtain incs s1 where
    a: "custom_convs Increasing x c ks s = Inr (incs, s1)" "length incs = length ks"
       "list_all (\<lambda>t. steps t = steps x \<and> channels t = 1) incs"
       "keep_track s1 = keep_track s + length ks" "hybrid s1 = hybrid s"
       "hybrid_convs (layers s1) = hybrid_convs (layers s) @ custom_conv_entries Increasing (tid x) (keep_track s) ks"
       "shortcut_count (layers s1) = shortcut_count (layers s)"
       "assembly_trace (layers s1) = assembly_trace (layers s)"
    by blast
  from custom_convs_ok[where x=x and s=s1, OF custom_filter_trend_ok(2)[of c ks] pos] obtain decs s2 where
    b: "custom_convs Decreasing x c ks s1 = Inr (decs, s2)" "length decs = length ks"
       "list_all (\<lambda>t. steps t = steps x \<and> channels t = 1) decs"
       "keep_track s2 = keep_track s1 + length ks" "hybrid s2 = hybrid s1"
       "hybrid_convs (layers s2) = hybrid_convs (layers s1) @ custom_conv_entries Decreasing (tid x) (keep_track s1) ks"
       "shortcut_count (layers s2) = shortcut_count (layers s1)"
       "assembly_trace (layers s2) = assembly_trace (layers s1)"
    by blast
  from custom_convs_ok[where x=x and s=s2, OF pk pos1] obtain peaks s3 where
    p: "custom_convs Peak x c (drop 1 ks) s2 = Inr (peaks, s3)" "length peaks = length (drop 1 ks)"
       "list_all (\<lambda>t. steps t = steps x \<and> channels t = 1) peaks"
       "keep_track s3 = keep_track s2 + length (drop 1 ks)" "hybrid s3 = hybrid s2"
       "hybrid_convs (layers s3) = hybrid_convs (layers s2) @ custom_conv_entries Peak (tid x) (keep_track s2) (drop 1 ks)"
       "shortcut_count (layers s3) = shortcut_count (layers s2)"
       "assembly_trace (layers s3) = assembly_trace (layers s2)"
    by blast
  let ?all = "incs @ decs @ peaks"
  have all: "list_all (\<lambda>t. steps t = steps x \<and> channels t = 1) ?all"
    using a(3) b(3) p(3) by simp
  have nonempty: "?all \<noteq> []" using a(2) ne by auto
  have cat: "keras_Concatenate ?all s3 =
      Inr (call_layer (Concatenate (map tid ?all)) (steps x) (sum_list (map channels ?all)) s3)"
    by (rule keras_Concatenate_ok[OF nonempty list_all_steps_weaken[OF all]])
  have sum: "sum_list (map channels ?all) = 2 * length ks + (length ks - 1)"
    using sum_channels_ones[OF all] a(2) b(2) p(2) by simp
  have "hybrid_layer x c ks s =
      Inr (keras_Activation ''relu''
             (fst (call_layer (Concatenate (map tid ?all)) (steps x) (2 * length ks + (length ks - 1)) s3))
             (snd (call_layer (Concatenate (map tid ?all)) (steps x) (2 * length ks + (length ks - 1)) s3)))"
    unfolding hybrid_layer_def
    using p(1) cat sum by (simp add: a(1) b(1) bind_err_def split_def)
  then show ?thesis
    using a b p
    by (simp add: keras_Activation_def call_layer_def hybrid_convs_append shortcut_count_append
          assembly_trace_append observe_defs hybrid_entries_def)
qed

lemma inception_branches_ok:
  assumes "0 < n_filters self"
  shows "\<exists>cl s4. inception_branches self x s = Inr (cl, s4) \<and> length cl = 4 \<and>
     list_all (\<lambda>t. steps t = steps x \<and> channels t = n_filters self) cl \<and>
     keep_track s4 = keep_track s \<and> hybrid s4 = hybrid s \<and>
     hybrid_convs (layers s4) = hybrid_convs (layers s) \<and>
     shortcut_count (layers s4) = shortcut_count (layers s) \<and>
     assembly_trace (layers s4) = assembly_trace (layers s) @ [ModuleBuilt]"
  using assms
  by (simp add: inception_branches_def Let_def split_def kernel_sizes_def bottleneck_size_def
        keras_Conv1D_def bind_err_def layer_call_defs observe_defs)

lemma elemwise_dim_same: "elemwise_dim i i = Inr i"
  by (simp add: elemwise_dim_def)

lemma shortcut_layer_ok:
  assumes "steps a = steps y" and "0 < channels y"
  shows "\<exists>z s'. shortcut_layer a y s = Inr (z, s') \<and> steps z = steps y \<and> channels z = channels y \<and>
           keep_track s' = keep_track s \<and> hybrid s' = hybrid s \<and>
           hybrid_convs (layers s') = hybrid_convs (layers s) \<and>
           shortcut_count (layers s') = shortcut_count (layers s) + 1 \<and>
           assembly_trace (layers s') = assembly_trace (layers s) @ [ShortcutAdded]"
  using assms
  by (simp add: shortcut_layer_def keras_Add_def keras_Conv1D_def Let_def split_def bind_err_def
        elemwise_dim_same layer_call_defs observe_defs)

lemma inception_module_ok:
  assumes nf: "0 < n_filters self"
  shows "\<exists>y s'. inception_module self x hyb s = Inr (y, s') \<and> steps y = steps x \<and>
     channels y = 3 * n_filters self + n_filters self + (if hyb then 17 else 0) \<and>
     keep_track s' = keep_track s + (if hyb then 17 else 0) \<and>
     hybrid_convs (layers s') =
       hybrid_convs (layers s) @ (if hyb then hybrid_entries (tid x) (keep_track s) default_kernel_sizes else []) \<and>
     shortcut_count (layers s') = shortcut_count (layers s) \<and>
     assembly_trace (layers s') = assembly_trace (layers s) @ [ModuleBuilt] \<and>
     (if hyb then \<exists>h. hybrid s' = Some h \<and> channels h = 17 \<and> steps h = steps x else hybrid s' = hybrid s)"
proof -
  from inception_branches_ok[OF nf, of x s] obtain cl s4 where
    br: "inception_branches self x s = Inr (cl, s4)"
    and cl: "length cl = 4" "list_all (\<lambda>t. steps t = steps x \<and> channels t = n_filters self) cl"
    and s4: "keep_track s4 = keep_track s" "hybrid s4 = hybrid s"
      "hybrid_convs (layers s4) = hybrid_convs (layers s)"
      "shortcut_count (layers s4) = shortcut_count (layers s)"
      "assembly_trace (layers s4) = assembly_trace (layers s) @ [ModuleBuilt]"
    by blast
  show ?thesis
  proof (cases hyb)
    case False
    have ne: "cl \<noteq> []" using cl(1) by auto
    have cat: "keras_Concatenate cl s4 =
      Inr (call_layer (Concatenate (map tid cl)) (steps x) (sum_list (map channels cl)) s4)"
      by (rule keras_Concatenate_ok[OF ne list_all_steps_weaken[OF cl(2)]])
    have sum: "sum_list (map channels cl) = 3 * n_filters self + n_filters self"
      using sum_channels_ones[OF cl(2)] cl(1) by simp
    show ?thesis
      using False cat sum s4
      by (simp add: inception_module_def br bind_err_def split_def Let_def layer_call_defs observe_defs)
  next
    case True
    from hybrid_layer_ok[OF custom_filters_default_ok(3) _ default_kernel_sizes_pos(1), of x "channels x" s4]
    obtain h s5 where
      h: "hybrid_layer x (channels x) default_kernel_sizes s4 = Inr (h, s5)" "steps h = steps x"
         "channels h = 2 * length default_kernel_sizes + (length default_kernel_sizes - 1)"
         "keep_track s5 = keep_track s4 + (2 * length default_kernel_sizes + (length default_kernel_sizes - 1))"
         "hybrid s5 = hybrid s4"
         "hybrid_convs (layers s5) = hybrid_convs (layers s4) @ hybrid_entries (tid x) (keep_track s4) default_kernel_sizes"
         "shortcut_count (layers s5) = shortcut_count (layers s4)"
         "assembly_trace (layers s5) = assembly_trace (layers s4)"
      by (auto simp: default_kernel_sizes_def)
    have len: "2 * length default_kernel_sizes + (length default_kernel_sizes - 1) = 17"
      by (simp add: default_kernel_sizes_def)
    have h3: "channels h = 17" using h(3) unfolding len .
    have h4: "keep_track s5 = keep_track s4 + 17" using h(4) unfolding len .
    let ?all = "cl @ [h]"
    have all: "list_all (\<lambda>t. steps t = steps x) ?all"
      using list_all_steps_weaken[OF cl(2)] h(2) by simp
    have cat: "keras_Concatenate ?all (s5\<lparr>hybrid := Some h\<rparr>) =
      Inr (call_layer (Concatenate (map tid ?all)) (steps x) (sum_list (map channels ?all)) (s5\<lparr>hybrid := Some h\<rparr>))"
      by (rule keras_Concatenate_ok[OF _ all]) simp
    have sum: "sum_list (map channels ?all) = 3 * n_filters self + n_filters self + 17"
      using sum_channels_ones[OF cl(2)] cl(1) h3 by simp
    show ?thesis
      using True cat sum s4 h(1,2,5,6,7,8) h3 h4
      by (simp add: inception_module_def br bind_err_def split_def Let_def layer_call_defs observe_defs)
  qed
qed

lemma build_step_ok:
  assumes "steps input_res = steps x" and nf: "0 < n_filters self"
  shows "\<exists>y s1. inception_module self x (d = 0) s = Inr (y, s1) \<and>
     (if shortcut_due self d
      then \<exists>z s2. shortcut_layer input_res y s1 = Inr (z, s2) \<and>
             build_step self d (x, input_res) s = Inr ((z, z), s2) \<and>
             steps z = steps x \<and> channels z = channels y \<and>
             shortcut_count (layers s2) = shortcut_count (layers s) + 1 \<and>
             assembly_trace (layers s2) = assembly_trace (layers s) @ [ModuleBuilt, ShortcutAdded] \<and>
             keep_track s2 = keep_track s1 \<and> hybrid s2 = hybrid s1 \<and>
             hybrid_convs (layers s2) = hybrid_convs (layers s1)
      else build_step self d (x, input_res) s = Inr ((y, input_res), s1) \<and>
             shortcut_count (layers s1) = shortcut_count (layers s) \<and>
             assembly_trace (layers s1) = assembly_trace (layers s) @ [ModuleBuilt])"
proof -
  from inception_module_ok[OF nf, of x "d = 0" s] obtain y s1 where
    m: "inception_module self x (d = 0) s = Inr (y, s1)" "steps y = steps x"
       "channels y = 3 * n_filters self + n_filters self + (if d = 0 then 17 else 0)"
       "shortcut_count (layers s1) = shortcut_count (layers s)"
       "assembly_trace (layers s1) = assembly_trace (layers s) @ [ModuleBuilt]"
    by blast
  have step: "build_step self d (x, input_res) s =
      (if shortcut_due self d
       then bind_err (shortcut_layer input_res y s1) (\<lambda>(z, s2). Inr ((z, z), s2))
       else Inr ((y, input_res), s1))"
    using m(1) by (cases "d = 0") (simp_all add: build_step_def shortcut_due_def bind_err_def)
  show ?thesis
  proof (cases "shortcut_due self d")
    case False
    with m step show ?thesis by auto
  next
    case True
    from assms m(2) have e: "steps input_res = steps y" by simp
    have c: "0 < channels y" using m(3) nf by simp
    from shortcut_layer_ok[OF e c, of s1] obtain z s2 where
      z: "shortcut_layer input_res y s1 = Inr (z, s2)" "steps z = steps y" "channels z = channels y"
         "keep_track s2 = keep_track s1" "hybrid s2 = hybrid s1"
         "hybrid_convs (layers s2) = hybrid_convs (layers s1)"
         "shortcut_count (layers s2) = shortcut_count (layers s1) + 1"
         "assembly_trace (layers s2) = assembly_trace (layers s1) @ [ShortcutAdded]"
      by blast
    with True m step show ?thesis by (auto simp: bind_err_def)
  qed
qed

lemma build_step_summary:
  assumes "steps r = steps x" and nf: "0 < n_filters self"
  shows "\<exists>x' r' s'. build_step self d (x, r) s = Inr ((x', r'), s') \<and>
     steps x' = steps x \<and> steps r' = steps x \<and>
     channels x' = 3 * n_filters self + n_filters self + (if d = 0 then 17 else 0) \<and>
     (r' = r \<or> r' = x') \<and>
     shortcut_count (layers s') = shortcut_count (layers s) + (if shortcut_due self d then 1 else 0) \<and>
     assembly_trace (layers s') =
       assembly_trace (layers s) @ (if shortcut_due self d then [ModuleBuilt, ShortcutAdded] else [ModuleBuilt]) \<and>
     keep_track s' = keep_track s + (if d = 0 then 17 else 0) \<and>
     hybrid_convs (layers s') =
       hybrid_convs (layers s) @ (if d = 0 then hybrid_entries (tid x) (keep_track s) default_kernel_sizes else []) \<and>
     (if d = 0 then \<exists>h. hybrid s' = Some h \<and> channels h = 17 \<and> steps h = steps x else hybrid s' = hybrid s)"
proof -
  from inception_module_ok[OF nf, of x "d = 0" s] obtain y s1 where
    m: "inception_module self x (d = 0) s = Inr (y, s1)" "steps y = steps x"
       "channels y = 3 * n_filters self + n_filters self + (if d = 0 then 17 else 0)"
       "keep_track s1 = keep_track s + (if d = 0 then 17 else 0)"
       "hybrid_convs (layers s1) =
          hybrid_convs (layers s) @ (if d = 0 then hybrid_entries (tid x) (keep_track s) default_kernel_sizes else [])"
       "shortcut_count (layers s1) = shortcut_count (layers s)"
       "if d = 0 then \<exists>h. hybrid s1 = Some h \<and> channels h = 17 \<and> steps h = steps x else hybrid s1 = hybrid s"
    by blast
  from build_step_ok[OF assms, of d s] m(1) have
    st: "if shortcut_due self d
      then \<exists>z s2. shortcut_layer r y s1 = Inr (z, s2) \<and>
             build_step self d (x, r) s = Inr ((z, z), s2) \<and>
             steps z = steps x \<and> channels z = channels y \<and>
             shortcut_count (layers s2) = shortcut_count (layers s) + 1 \<and>
             assembly_trace (layers s2) = assembly_trace (layers s) @ [ModuleBuilt, ShortcutAdded] \<and>
             keep_track s2 = keep_track s1 \<and> hybrid s2 = hybrid s1 \<and>
             hybrid_convs (layers s2) = hybrid_convs (layers s1)
      else build_step self d (x, r) s = Inr ((y, r), s1) \<and>
             shortcut_count (layers s1) = shortcut_count (layers s) \<and>
             assembly_trace (layers s1) = assembly_trace (layers s) @ [ModuleBuilt]"
    by simp
  show ?thesis
  proof (cases "shortcut_due self d")
    case False
    with st have "build_step self d (x, r) s = Inr ((y, r), s1)"
      "assembly_trace (layers s1) = assembly_trace (layers s) @ [ModuleBuilt]" by simp_all
    with False m assms show ?thesis by simp
  next
    case True
    with st obtain z s2 where
      z: "build_step self d (x, r) s = Inr ((z, z), s2)" "steps z = steps x" "channels z = channels y"
         "shortcut_count (layers s2) = shortcut_count (layers s) + 1"
         "assembly_trace (layers s2) = assembly_trace (layers s) @ [ModuleBuilt, ShortcutAdded]"
         "keep_track s2 = keep_track s1" "hybrid s2 = hybrid s1"
         "hybrid_convs (layers s2) = hybrid_convs (layers s1)"
      by auto
    with True m show ?thesis by simp
  qed
qed

lemma build_loop_ok:
  assumes "steps r = steps x" and nf: "0 < n_filters self"
  shows "\<exists>x' r' s'. build_loop self ds (x, r) s = Inr ((x', r'), s') \<and>
     steps x' = steps x \<and> steps r' = steps x \<and>
     (0 < channels x \<and> 0 < channels r \<longrightarrow> 0 < channels x' \<and> 0 < channels r') \<and>
     shortcut_count (layers s') = shortcut_count (layers s) + length (filter (shortcut_due self) ds) \<and>
     assembly_trace (layers s') =
       assembly_trace (layers s) @
       concat (map (\<lambda>d. if shortcut_due self d then [ModuleBuilt, ShortcutAdded] else [ModuleBuilt]) ds) \<and>
     (ds \<noteq> [] \<longrightarrow> channels x' = 3 * n_filters self + n_filters self + (if last ds = 0 then 17 else 0)) \<and>
     (ds = [] \<longrightarrow> x' = x \<and> r' = r \<and> s' = s) \<and>
     (0 \<notin> set ds \<longrightarrow> keep_track s' = keep_track s \<and> hybrid s' = hybrid s \<and>
        hybrid_convs (layers s') = hybrid_convs (layers s))"
  using assms(1)
proof (induction ds arbitrary: x r s)
  case Nil
  then show ?case by simp
next
  case (Cons d ds)
  from build_step_summary[OF Cons.prems nf, of d s] obtain x1 r1 s1 where
    st: "build_step self d (x, r) s = Inr ((x1, r1), s1)" "steps x1 = steps x" "steps r1 = steps x"
        "channels x1 = 3 * n_filters self + n_filters self + (if d = 0 then 17 else 0)"
        "r1 = r \<or> r1 = x1"
        "shortcut_count (layers s1) = shortcut_count (layers s) + (if shortcut_due self d then 1 else 0)"
        "assembly_trace (layers s1) =
           assembly_trace (layers s) @ (if shortcut_due self d then [ModuleBuilt, ShortcutAdded] else [ModuleBuilt])"
        "keep_track s1 = keep_track s + (if d = 0 then 17 else 0)"
        "hybrid_convs (layers s1) =
           hybrid_convs (layers s) @ (if d = 0 then hybrid_entries (tid x) (keep_track s) default_kernel_sizes else [])"
        "if d = 0 then \<exists>h. hybrid s1 = Some h \<and> channels h = 17 \<and> steps h = steps x else hybrid s1 = hybrid s"
    by blast
  have "steps r1 = steps x1" using st(2,3) by simp
  from Cons.IH[OF this, of s1] obtain x' r' s' where
    ih: "build_loop self ds (x1, r1) s1 = Inr ((x', r'), s')" "steps x' = steps x1" "steps r' = steps x1"
        "0 < channels x1 \<and> 0 < channels r1 \<longrightarrow> 0 < channels x' \<and> 0 < channels r'"
        "shortcut_count (layers s') = shortcut_count (layers s1) + length (filter (shortcut_due self) ds)"
        "assembly_trace (layers s') =
           assembly_trace (layers s1) @
           concat (map (\<lambda>d. if shortcut_due self d then [ModuleBuilt, ShortcutAdded] else [ModuleBuilt]) ds)"
        "ds \<noteq> [] \<longrightarrow> channels x' = 3 * n_filters self + n_filters self + (if last ds = 0 then 17 else 0)"
        "ds = [] \<longrightarrow> x' = x1 \<and> r' = r1 \<and> s' = s1"
        "0 \<notin> set ds \<longrightarrow> keep_track s' = keep_track s1 \<and> hybrid s' = hybrid s1 \<and>
           hybrid_convs (layers s') = hybrid_convs (layers s1)"
    by blast
  have x1pos: "0 < channels x1" using st(4) nf by simp
  have pos: "0 < channels x \<and> 0 < channels r \<longrightarrow> 0 < channels x' \<and> 0 < channels r'"
    using ih(4) st(5) x1pos by auto
  have "build_loop self (d # ds) (x, r) s = Inr ((x', r'), s')"
    using st(1) ih(1) by (simp add: bind_err_def)
  then show ?case
    using st(2,3,4,6,7,8,9,10) ih(2,3,5,6,7,8,9) pos by (cases "ds = []") auto
qed

lemma build_model_unfold:
  "build_model self =
     bind_err (build_loop self (py_range 0 (depth self)) (input_tensor0 self, input_tensor0 self) (state1 self))
       (\<lambda>((x, r), s2).
          if steps x = 0 then Inl ValueError
          else Inr \<lparr>model_input = input_tensor0 self,
               model_output = \<lparr>vid = Suc (length (layers s2)), units = n_classes self\<rparr>,
               final = s2\<lparr>layers := layers s2 @ [GlobalAveragePooling1D (tid x),
                                                  Dense (n_classes self) ''softmax'' (length (layers s2))]\<rparr>\<rparr>)"
  by (simp add: build_model_def Let_def split_def keras_GlobalAveragePooling1D_def keras_Dense_def
        layer_call_defs input_tensor0_def state1_def bind_err_def
      split: sum.splits)

lemma build_model_shallow:
  assumes "depth self \<le> 0" and "0 < length_TS self"
  shows "build_model self =
     Inr \<lparr>model_input = \<lparr>tid = 0, steps = length_TS self, channels = 1\<rparr>,
          model_output = \<lparr>vid = 2, units = n_classes self\<rparr>,
          final = \<lparr>layers = [Input (length_TS self) 1, GlobalAveragePooling1D 0,
                              Dense (n_classes self) ''softmax'' 1],
                    keep_track = 0, hybrid = None\<rparr>\<rparr>"
  using assms
  by (simp add: build_model_unfold py_range_def bind_err_def input_tensor0_def state1_def)

lemma build_model_empty_input:
  assumes "depth self \<le> 0" and "length_TS self = 0"
  shows "build_model self = Inl ValueError"
  using assms
  by (simp add: build_model_unfold py_range_def bind_err_def input_tensor0_def state1_def)

lemma build_model_any:
  assumes nf: "0 < n_filters self" and len: "0 < length_TS self"
  shows "\<exists>b. build_model self = Inr b \<and> model_input b = input_tensor0 self \<and>
     units (model_output b) = n_classes self \<and>
     shortcut_count (layers (final b)) = length (filter (shortcut_due self) (py_range 0 (depth self))) \<and>
     assembly_trace (layers (final b)) =
       concat (map (\<lambda>d. if shortcut_due self d then [ModuleBuilt, ShortcutAdded] else [ModuleBuilt])
                 (py_range 0 (depth self)))"
proof -
  have "steps (input_tensor0 self) = steps (input_tensor0 self)" by simp
  from build_loop_ok[OF this nf, of "py_range 0 (depth self)" "state1 self"]
  obtain x' r' s' where
    l: "build_loop self (py_range 0 (depth self)) (input_tensor0 self, input_tensor0 self) (state1 self)
          = Inr ((x', r'), s')"
       "steps x' = steps (input_tensor0 self)"
       "shortcut_count (layers s') =
          shortcut_count (layers (state1 self)) + length (filter (shortcut_due self) (py_range 0 (depth self)))"
       "assembly_trace (layers s') =
          assembly_trace (layers (state1 self)) @
          concat (map (\<lambda>d. if shortcut_due self d then [ModuleBuilt, ShortcutAdded] else [ModuleBuilt])
                    (py_range 0 (depth self)))"
    by blast
  have st: "steps x' \<noteq> 0" using l(2) len by (simp add: input_tensor0_def)
  show ?thesis
    using l st by (simp add: build_model_unfold bind_err_def state1_def observe_defs)
qed

lemma build_model_deep:
  assumes "1 \<le> depth self" and nf: "0 < n_filters self" and len: "0 < length_TS self"
  shows "\<exists>b. build_model self = Inr b \<and>
     keep_track (final b) = 17 \<and>
     hybrid_convs (layers (final b)) = hybrid_entries 0 0 default_kernel_sizes \<and>
     (\<exists>h. hybrid (final b) = Some h \<and> channels h = 17 \<and> steps h = length_TS self)"
proof -
  let ?i = "input_tensor0 self"
  have r: "py_range 0 (depth self) = 0 # [1..depth self - 1]"
    using assms(1) by (simp add: py_range_def upto_rec1)
  have "steps ?i = steps ?i" by simp
  from build_step_summary[OF this nf, of 0 "state1 self"] obtain x1 r1 s1 where
    st: "build_step self 0 (?i, ?i) (state1 self) = Inr ((x1, r1), s1)" "steps x1 = steps ?i" "steps r1 = steps ?i"
        "keep_track s1 = keep_track (state1 self) + 17"
        "hybrid_convs (layers s1) =
           hybrid_convs (layers (state1 self)) @ hybrid_entries (tid ?i) (keep_track (state1 self)) default_kernel_sizes"
        "\<exists>h. hybrid s1 = Some h \<and> channels h = 17 \<and> steps h = steps ?i"
    by auto
  have "steps r1 = steps x1" using st(2,3) by simp
  from build_loop_ok[OF this nf, of "[1..depth self - 1]" s1] obtain x' r' s' where
    l: "build_loop self [1..depth self - 1] (x1, r1) s1 = Inr ((x', r'), s')" "steps x' = steps x1"
       "0 \<notin> set [1..depth self - 1] \<longrightarrow> keep_track s' = keep_track s1 \<and> hybrid s' = hybrid s1 \<and>
           hybrid_convs (layers s') = hybrid_convs (layers s1)"
    by blast
  have l2: "keep_track s' = keep_track s1" "hybrid s' = hybrid s1"
       "hybrid_convs (layers s') = hybrid_convs (layers s1)"
    using l(3) by simp_all
  have nz: "steps x' \<noteq> 0" using l(2) st(2) len by (simp add: input_tensor0_def)
  have "build_loop self (py_range 0 (depth self)) (?i, ?i) (state1 self) = Inr ((x', r'), s')"
    using st(1) l(1) by (simp add: r bind_err_def)
  then show ?thesis
    using st l2 nz
    by (simp add: build_model_unfold bind_err_def state1_def input_tensor0_def observe_defs)
qed

section \<open>The training call\<close>

lemma fit_Inr_iff:
  "(\<exists>call. fit self xtrain ytrain xval yval plot_test = Inr call) \<longleftrightarrow>
   (ytrain \<noteq> [] \<and> (plot_test \<longrightarrow> (\<exists>yv. yval = Some yv \<and> yv \<noteq> [])))"
  by (auto simp: fit_def Let_def bind_err_def ohe_fit_transform_def split: option.splits)

lemma fit_batch:
  "fit self xtrain ytrain xval yval plot_test = Inr call \<Longrightarrow>
   fit_batch_size call = min (batch_size self) (int (length xtrain) div 10)"
  by (auto simp: fit_def Let_def bind_err_def ohe_fit_transform_def split: option.splits if_splits)

lemma fit_labels:
  "fit self xtrain ytrain xval (Some yv) True = Inr call \<Longrightarrow>
   fit_y call = ohe_transform (ohe_fit ytrain) ytrain \<and>
   fit_validation_data call = Some (xval, ohe_transform (ohe_fit yv) yv)"
  by (auto simp: fit_def Let_def bind_err_def ohe_fit_transform_def split: option.splits if_splits)


text \<open>
  Claim C9. In every call of \<open>fit\<close> with validation data (\<open>plot_test\<close> set and validation
  labels given) that reaches training, the training labels handed to training are encoded
  by an encoder fitted on the training labels, and the validation labels by another
  encoder, fitted on the validation labels alone; the call reaches training whenever both
  label sequences have a sample.
\<close>

theorem fit_encodes_labels_separately:
  "(\<forall>call. fit self xtrain ytrain xval (Some yv) True = Inr call \<longrightarrow>
      fit_y call = ohe_transform (ohe_fit ytrain) ytrain \<and>
      fit_validation_data call = Some (xval, ohe_transform (ohe_fit yv) yv)) \<and>
   (ytrain \<noteq> [] \<and> yv \<noteq> [] \<longrightarrow>
      (\<exists>call. fit self xtrain ytrain xval (Some yv) True = Inr call))"
  using fit_Inr_iff[of self xtrain ytrain xval "Some yv" True]
  by (auto dest: fit_labels)

theorem fit_encodes_labels_separately_witness:
  "\<exists>call. fit (HINCEPTION ''out/'' 100 3) [[0], [0], [0::rat]] [0, 1, 2] (Some [[0], [0]]) (Some [1, 2]) True
             = Inr call \<and>
     fit_y call = [[1, 0, 0], [0, 1, 0], [0, 0, 1]] \<and>
     fit_validation_data call = Some (Some [[0], [0]], [[1, 0], [0, 1]])"
proof -
  let ?self = "HINCEPTION ''out/'' 100 3"
  have t: "ohe_transform (ohe_fit [0, 1, 2]) [0, 1, 2] = [[1, 0, 0], [0, 1, 0], [0, 0, 1]]"
    by code_simp
  have v: "ohe_transform (ohe_fit [1, 2]) [1, 2] = [[1, 0], [0, 1]]"
    by code_simp
  note inst = fit_encodes_labels_separately[of ?self "[[0], [0], [0::rat]]" "[0, 1, 2]" "Some [[0], [0]]" "[1, 2]"]
  from inst obtain call where
    c: "fit ?self [[0], [0], [0::rat]] [0, 1, 2] (Some [[0], [0]]) (Some [1, 2]) True = Inr call"
    by auto
  with inst have "fit_y call = ohe_transform (ohe_fit [0, 1, 2]) [0, 1, 2]"
    "fit_validation_data call = Some (Some [[0], [0]], ohe_transform (ohe_fit [1, 2]) [1, 2])"
    by blast+
  with c show ?thesis unfolding t v by blast
qed

text \<open>
  Claim C10, as the code has it. In every call of \<open>fit\<close> that reaches training, the batch
  size handed to training is \<open>min batch_size (n div 10)\<close> for \<open>n\<close> training samples; so for
  \<open>n < 10\<close> it is 0 whenever the configured batch size is not negative, and the configured
  value itself when that is negative. The call reaches training whenever the label
  sequences it encodes have a sample.
\<close>

theorem fit_effective_batch_size:
  "(\<forall>call. fit self xtrain ytrain xval yval plot_test = Inr call \<longrightarrow>
      fit_batch_size call = min (batch_size self) (int (length xtrain) div 10) \<and>
      (length xtrain < 10 \<and> 0 \<le> batch_size self \<longrightarrow> fit_batch_size call = 0) \<and>
      (length xtrain < 10 \<and> batch_size self < 0 \<longrightarrow> fit_batch_size call = batch_size self)) \<and>
   (ytrain \<noteq> [] \<and> (plot_test \<longrightarrow> (\<exists>yv. yval = Some yv \<and> yv \<noteq> [])) \<longrightarrow>
      (\<exists>call. fit self xtrain ytrain xval yval plot_test = Inr call))"
  using fit_Inr_iff[of self xtrain ytrain xval yval plot_test]
  by (auto dest!: fit_batch)

theorem fit_effective_batch_size_witness:
  "\<exists>call. fit (HINCEPTION ''out/'' 100 2) (replicate 5 [0::rat]) [0, 1, 0, 1, 0] None None False
             = Inr call \<and>
     batch_size (HINCEPTION ''out/'' 100 2) = 64 \<and> fit_batch_size call = 0"
proof -
  let ?self = "HINCEPTION ''out/'' 100 2"
  note inst = fit_effective_batch_size[of ?self "replicate 5 [0::rat]" "[0, 1, 0, 1, 0]" None None False]
  from inst obtain call where
    c: "fit ?self (replicate 5 [0::rat]) [0, 1, 0, 1, 0] None None False = Inr call"
    by auto
  have b: "batch_size ?self = 64" by (simp add: HINCEPTION_def)
  from inst c b have "fit_batch_size call = 0" by auto
  with c b show ?thesis by blast
qed

text \<open>
  The claim as it is written fails for a negative configured batch size: with
  \<open>batch_size = -1\<close> and 5 training samples the batch size handed to training is \<open>-1\<close>.
\<close>

theorem fit_batch_size_negative_configured:
  "fit ((HINCEPTION ''out/'' 100 2)\<lparr>batch_size := - 1\<rparr>) (replicate 5 [0::rat]) [0, 1, 0, 1, 0]
       None None False =
     Inr \<lparr>fit_x = [[0], [0], [0], [0], [0]],
          fit_y = [[1, 0], [0, 1], [1, 0], [0, 1], [1, 0]],
          fit_batch_size = - 1, fit_epochs = 1500, fit_validation_data = None\<rparr> \<and>
   length (replicate 5 [0::rat]) < 10 \<and>
   (- 1 :: int) \<noteq> 0"
  by (simp add: fit_def HINCEPTION_def bind_err_def ohe_fit_transform_def ohe_transform_def
        ohe_fit_def numeral_eq_Suc)

section \<open>The Inception module\<close>

text \<open>With no filter the first learned convolution of the module is rejected.\<close>

lemma inception_module_no_filters:
  "n_filters self = 0 \<Longrightarrow> inception_module self x use_hybrid s = Inl ValueError"
  by (simp add: inception_module_def inception_branches_def kernel_sizes_def bottleneck_size_def
        keras_Conv1D_def bind_err_def)

text \<open>
  Claim C6. For a positive \<open>n_filters\<close>, every call of the Inception module on a tensor of
  positive length and channel count succeeds and returns a tensor with
  \<open>3 * n_filters + n_filters\<close> channels, plus the channels of the hybrid layer's output (17,
  kept in \<^verbatim>\<open>self.hybrid\<close>) when the hybrid layer is fused. With \<open>n_filters = 32\<close> that is 128
  channels without the hybrid layer and 145 with it, in particular for \<open>max_cf_length = 6\<close>.
\<close>

theorem inception_module_channels:
  assumes "0 < n_filters self" and "0 < steps x" and "0 < channels x"
  shows "\<exists>y s'. inception_module self x use_hybrid s = Inr (y, s') \<and> steps y = steps x \<and>
     (if use_hybrid
      then \<exists>h. hybrid s' = Some h \<and> channels h = 17 \<and>
             channels y = 3 * n_filters self + n_filters self + channels h
      else channels y = 3 * n_filters self + n_filters self) \<and>
     (n_filters self = 32 \<and> \<not> use_hybrid \<longrightarrow> channels y = 128) \<and>
     (n_filters self = 32 \<and> max_cf_length self = 6 \<and> use_hybrid \<longrightarrow> channels y = 145)"
proof -
  from inception_module_ok[OF assms(1), of x use_hybrid s] obtain y s' where
    m: "inception_module self x use_hybrid s = Inr (y, s')" "steps y = steps x"
       "channels y = 3 * n_filters self + n_filters self + (if use_hybrid then 17 else 0)"
       "if use_hybrid then \<exists>h. hybrid s' = Some h \<and> channels h = 17 \<and> steps h = steps x
        else hybrid s' = hybrid s"
    by blast
  show ?thesis
    using m by (intro exI[of _ y] exI[of _ s']) (cases use_hybrid; auto)
qed

theorem inception_module_channels_witness:
  "0 < n_filters (HINCEPTION ''out/'' 100 2) \<and>
   0 < steps (input_tensor0 (HINCEPTION ''out/'' 100 2)) \<and>
   0 < channels (input_tensor0 (HINCEPTION ''out/'' 100 2)) \<and>
   n_filters (HINCEPTION ''out/'' 100 2) = 32 \<and> max_cf_length (HINCEPTION ''out/'' 100 2) = 6 \<and>
   (\<exists>y s'. inception_module (HINCEPTION ''out/'' 100 2) (input_tensor0 (HINCEPTION ''out/'' 100 2)) False
              (state1 (HINCEPTION ''out/'' 100 2)) = Inr (y, s') \<and> channels y = 128) \<and>
   (\<exists>y s'. inception_module (HINCEPTION ''out/'' 100 2) (input_tensor0 (HINCEPTION ''out/'' 100 2)) True
              (state1 (HINCEPTION ''out/'' 100 2)) = Inr (y, s') \<and> channels y = 145)"
proof -
  let ?self = "HINCEPTION ''out/'' 100 2"
  have c: "n_filters ?self = 32" "max_cf_length ?self = 6" by (simp_all add: HINCEPTION_def)
  have p: "0 < n_filters ?self" "0 < steps (input_tensor0 ?self)" "0 < channels (input_tensor0 ?self)"
    by (simp_all add: HINCEPTION_def input_tensor0_def)
  from inception_module_channels[OF p, of False "state1 ?self"] c
  have a: "\<exists>y s'. inception_module ?self (input_tensor0 ?self) False (state1 ?self) = Inr (y, s') \<and>
             channels y = 128"
    by auto
  from inception_module_channels[OF p, of True "state1 ?self"] c
  have b: "\<exists>y s'. inception_module ?self (input_tensor0 ?self) True (state1 ?self) = Inr (y, s') \<and>
             channels y = 145"
    by auto
  from a b c p show ?thesis by blast
qed

section \<open>The shortcut cadence\<close>

lemma range6_shortcuts: "filter (\<lambda>d. d mod 3 = 2) (py_range 0 6) = [2, 5]"
  by code_simp

lemma range6_trace:
  "concat (map (\<lambda>d. if d mod 3 = 2 then [ModuleBuilt, ShortcutAdded] else [ModuleBuilt]) (py_range 0 6)) =
     [ModuleBuilt, ModuleBuilt, ModuleBuilt, ShortcutAdded,
      ModuleBuilt, ModuleBuilt, ModuleBuilt, ShortcutAdded]"
  by code_simp

text \<open>
  Claim C7, for positive \<open>n_filters\<close> and \<open>length_TS\<close>. At every depth index \<open>d\<close> of the
  assembly, on handles \<open>x\<close> and \<open>input_res\<close> of the same positive length and with positive
  channel counts (as they are throughout the assembly), the Inception module runs on \<open>x\<close>;
  a shortcut module is inserted exactly when residual connections are enabled and
  \<open>d mod 3 = 2\<close>, with anchor \<open>input_res\<close> and the module's output as current tensor, and
  then both \<open>x\<close> and \<open>input_res\<close> become the shortcut's output; otherwise \<open>x\<close> becomes the
  module's output, \<open>input_res\<close> stays and no shortcut is added. In the built model the
  modules and shortcuts follow each other in the order of \<^verbatim>\<open>range(depth)\<close>, each module of
  an index \<open>d\<close> with \<open>d mod 3 = 2\<close> directly followed by a shortcut when residual connections
  are enabled and no other; for \<open>depth = 6\<close> these are two shortcuts, one after the module
  of index 2 and one after the module of index 5.
\<close>

theorem shortcut_cadence:
  assumes nf: "0 < n_filters self" and len: "0 < length_TS self"
  shows
  "(steps input_res = steps x \<and> 0 < steps x \<and> 0 < channels x \<and> 0 < channels input_res \<longrightarrow>
      (\<exists>y s1. inception_module self x (d = 0) s = Inr (y, s1) \<and>
         (if use_residual self \<and> d mod 3 = 2
          then \<exists>z s2. shortcut_layer input_res y s1 = Inr (z, s2) \<and>
                 build_step self d (x, input_res) s = Inr ((z, z), s2) \<and>
                 shortcut_count (layers s2) = shortcut_count (layers s) + 1 \<and>
                 assembly_trace (layers s2) = assembly_trace (layers s) @ [ModuleBuilt, ShortcutAdded]
          else build_step self d (x, input_res) s = Inr ((y, input_res), s1) \<and>
                 shortcut_count (layers s1) = shortcut_count (layers s) \<and>
                 assembly_trace (layers s1) = assembly_trace (layers s) @ [ModuleBuilt]))) \<and>
   (\<exists>x' r' s'. build_loop self ds (input_tensor0 self, input_tensor0 self) (state1 self)
                 = Inr ((x', r'), s') \<and>
               steps r' = steps x' \<and> 0 < steps x' \<and> 0 < channels x' \<and> 0 < channels r') \<and>
   (\<exists>b. build_model self = Inr b \<and>
        shortcut_count (layers (final b)) =
          length (filter (\<lambda>d. use_residual self \<and> d mod 3 = 2) (py_range 0 (depth self))) \<and>
        assembly_trace (layers (final b)) =
          concat (map (\<lambda>d. if use_residual self \<and> d mod 3 = 2
                             then [ModuleBuilt, ShortcutAdded] else [ModuleBuilt])
                    (py_range 0 (depth self)))) \<and>
   (depth self = 6 \<and> use_residual self \<longrightarrow>
      filter (\<lambda>d. use_residual self \<and> d mod 3 = 2) (py_range 0 (depth self)) = [2, 5] \<and>
      (\<exists>b. build_model self = Inr b \<and> shortcut_count (layers (final b)) = 2 \<and>
           assembly_trace (layers (final b)) =
             [ModuleBuilt, ModuleBuilt, ModuleBuilt, ShortcutAdded,
              ModuleBuilt, ModuleBuilt, ModuleBuilt, ShortcutAdded]))"
proof (intro conjI impI)
  assume "steps input_res = steps x \<and> 0 < steps x \<and> 0 < channels x \<and> 0 < channels input_res"
  then have e: "steps input_res = steps x" by simp
  from build_step_ok[OF e nf, of d s]
  show "\<exists>y s1. inception_module self x (d = 0) s = Inr (y, s1) \<and>
         (if use_residual self \<and> d mod 3 = 2
          then \<exists>z s2. shortcut_layer input_res y s1 = Inr (z, s2) \<and>
                 build_step self d (x, input_res) s = Inr ((z, z), s2) \<and>
                 shortcut_count (layers s2) = shortcut_count (layers s) + 1 \<and>
                 assembly_trace (layers s2) = assembly_trace (layers s) @ [ModuleBuilt, ShortcutAdded]
          else build_step self d (x, input_res) s = Inr ((y, input_res), s1) \<and>
                 shortcut_count (layers s1) = shortcut_count (layers s) \<and>
                 assembly_trace (layers s1) = assembly_trace (layers s) @ [ModuleBuilt])"
    unfolding shortcut_due_def by (cases "use_residual self \<and> d mod 3 = 2") auto
next
  have "steps (input_tensor0 self) = steps (input_tensor0 self)" by simp
  from build_loop_ok[OF this nf, of ds "state1 self"] obtain x' r' s' where
    l: "build_loop self ds (input_tensor0 self, input_tensor0 self) (state1 self) = Inr ((x', r'), s')"
       "steps x' = steps (input_tensor0 self)" "steps r' = steps (input_tensor0 self)"
       "0 < channels (input_tensor0 self) \<and> 0 < channels (input_tensor0 self) \<longrightarrow>
          0 < channels x' \<and> 0 < channels r'"
    by blast
  have i: "steps (input_tensor0 self) = length_TS self" "channels (input_tensor0 self) = 1"
    by (simp_all add: input_tensor0_def)
  from l(4) have c: "0 < channels x'" "0 < channels r'" unfolding i by simp_all
  from l(2,3) len have st: "steps r' = steps x'" "0 < steps x'" unfolding i by simp_all
  from l(1) st c
  show "\<exists>x' r' s'. build_loop self ds (input_tensor0 self, input_tensor0 self) (state1 self)
                 = Inr ((x', r'), s') \<and>
               steps r' = steps x' \<and> 0 < steps x' \<and> 0 < channels x' \<and> 0 < channels r'"
    by blast
next
  from build_model_any[OF nf len]
  show "\<exists>b. build_model self = Inr b \<and>
        shortcut_count (layers (final b)) =
          length (filter (\<lambda>d. use_residual self \<and> d mod 3 = 2) (py_range 0 (depth self))) \<and>
        assembly_trace (layers (final b)) =
          concat (map (\<lambda>d. if use_residual self \<and> d mod 3 = 2
                             then [ModuleBuilt, ShortcutAdded] else [ModuleBuilt])
                    (py_range 0 (depth self)))"
    unfolding shortcut_due_def by auto
next
  assume a: "depth self = 6 \<and> use_residual self"
  then show "filter (\<lambda>d. use_residual self \<and> d mod 3 = 2) (py_range 0 (depth self)) = [2, 5]"
    using range6_shortcuts by simp
next
  assume a: "depth self = 6 \<and> use_residual self"
  with build_model_any[OF nf len] range6_shortcuts range6_trace
  show "\<exists>b. build_model self = Inr b \<and> shortcut_count (layers (final b)) = 2 \<and>
           assembly_trace (layers (final b)) =
             [ModuleBuilt, ModuleBuilt, ModuleBuilt, ShortcutAdded,
              ModuleBuilt, ModuleBuilt, ModuleBuilt, ShortcutAdded]"
    unfolding shortcut_due_def by auto
qed

theorem shortcut_cadence_witness:
  "0 < n_filters (HINCEPTION ''out/'' 100 2) \<and> 0 < length_TS (HINCEPTION ''out/'' 100 2) \<and>
   depth (HINCEPTION ''out/'' 100 2) = 6 \<and> use_residual (HINCEPTION ''out/'' 100 2) \<and>
   (\<exists>b. build_model (HINCEPTION ''out/'' 100 2) = Inr b \<and> shortcut_count (layers (final b)) = 2 \<and>
        assembly_trace (layers (final b)) =
          [ModuleBuilt, ModuleBuilt, ModuleBuilt, ShortcutAdded,
           ModuleBuilt, ModuleBuilt, ModuleBuilt, ShortcutAdded]) \<and>
   (\<exists>z s2. build_step (HINCEPTION ''out/'' 100 2) 2
              (input_tensor0 (HINCEPTION ''out/'' 100 2), input_tensor0 (HINCEPTION ''out/'' 100 2))
              (state1 (HINCEPTION ''out/'' 100 2)) = Inr ((z, z), s2) \<and>
            shortcut_count (layers s2) = 1) \<and>
   (\<exists>y s1. build_step (HINCEPTION ''out/'' 100 2) 1
              (input_tensor0 (HINCEPTION ''out/'' 100 2), input_tensor0 (HINCEPTION ''out/'' 100 2))
              (state1 (HINCEPTION ''out/'' 100 2))
              = Inr ((y, input_tensor0 (HINCEPTION ''out/'' 100 2)), s1) \<and>
            shortcut_count (layers s1) = 0)"
proof -
  let ?self = "HINCEPTION ''out/'' 100 2"
  let ?i = "input_tensor0 ?self"
  have p: "0 < n_filters ?self" "0 < length_TS ?self" by (simp_all add: HINCEPTION_def)
  have c: "depth ?self = 6" "use_residual ?self" by (simp_all add: HINCEPTION_def)
  have z: "shortcut_count (layers (state1 ?self)) = 0"
    by (simp add: state1_def shortcut_count_def)
  have e: "steps ?i = steps ?i \<and> 0 < steps ?i \<and> 0 < channels ?i \<and> 0 < channels ?i"
    by (simp add: input_tensor0_def HINCEPTION_def)
  from shortcut_cadence[OF p, of ?i ?i 2 "state1 ?self" "[]"] c
  have m: "\<exists>b. build_model ?self = Inr b \<and> shortcut_count (layers (final b)) = 2 \<and>
        assembly_trace (layers (final b)) =
          [ModuleBuilt, ModuleBuilt, ModuleBuilt, ShortcutAdded,
           ModuleBuilt, ModuleBuilt, ModuleBuilt, ShortcutAdded]"
    by blast
  from shortcut_cadence[OF p, of ?i ?i 2 "state1 ?self" "[]"] c e z
  have a: "\<exists>z s2. build_step ?self 2 (?i, ?i) (state1 ?self) = Inr ((z, z), s2) \<and>
            shortcut_count (layers s2) = 1"
    by auto
  from shortcut_cadence[OF p, of ?i ?i 1 "state1 ?self" "[]"] c e z
  have b: "\<exists>y s1. build_step ?self 1 (?i, ?i) (state1 ?self) = Inr ((y, ?i), s1) \<and>
            shortcut_count (layers s1) = 0"
    by auto
  from p c m a b show ?thesis by blast
qed

section \<open>The hybrid layer in the assembly\<close>

lemma hybrid_entries_default:
  "length (hybrid_entries inb kt default_kernel_sizes) = 17 \<and>
   list_all (\<lambda>(nm, kl, i). i = inb) (hybrid_entries inb kt default_kernel_sizes) \<and>
   map (\<lambda>((p, t, k), kl, i). t) (hybrid_entries inb kt default_kernel_sizes) = map ((+) kt) [0..<17]"
  by (simp add: hybrid_entries_def custom_conv_entries_def default_kernel_sizes_def
        upt_conv_Cons del: upt_Suc)

text \<open>
  Claim C8, as the code has it, for positive \<open>n_filters\<close> and \<open>length_TS\<close>. In every model
  build with \<open>depth \<ge> 1\<close> the hybrid layer is invoked exactly once: the model holds the 17
  hybrid convolutions of one call, numbered 0 to 16 by \<^verbatim>\<open>keep_track\<close>, which ends at 17; all
  of them read the model's input tensor, the raw input of the module at depth index 0. At
  every depth index \<open>d\<close>, on handles of the same positive length and with positive channel
  counts, the step adds the hybrid convolutions of one call, reading the module's own
  input \<open>x\<close>, when \<open>d = 0\<close>, and none and no change of \<^verbatim>\<open>keep_track\<close> otherwise.
\<close>

theorem hybrid_layer_invoked_once:
  assumes nf: "0 < n_filters self" and len: "0 < length_TS self"
  shows
  "(1 \<le> depth self \<longrightarrow>
      (\<exists>b h. build_model self = Inr b \<and> model_input b = input_tensor0 self \<and>
         keep_track (final b) = 17 \<and>
         hybrid_convs (layers (final b)) = hybrid_entries (tid (model_input b)) 0 default_kernel_sizes \<and>
         length (hybrid_convs (layers (final b))) = 17 \<and>
         list_all (\<lambda>(nm, kl, i). i = tid (model_input b)) (hybrid_convs (layers (final b))) \<and>
         map (\<lambda>((p, t, k), kl, i). t) (hybrid_convs (layers (final b))) = [0..<17] \<and>
         hybrid (final b) = Some h \<and> channels h = 17)) \<and>
   (steps input_res = steps x \<and> 0 < steps x \<and> 0 < channels x \<and> 0 < channels input_res \<longrightarrow>
      (\<exists>x' r' s'. build_step self d (x, input_res) s = Inr ((x', r'), s') \<and>
         keep_track s' = keep_track s + (if d = 0 then 17 else 0) \<and>
         hybrid_convs (layers s') =
           hybrid_convs (layers s) @
           (if d = 0 then hybrid_entries (tid x) (keep_track s) default_kernel_sizes else [])))"
proof (intro conjI impI)
  assume d: "1 \<le> depth self"
  from build_model_deep[OF d nf len] build_model_any[OF nf len] obtain b h where
    b: "build_model self = Inr b" "model_input b = input_tensor0 self" "keep_track (final b) = 17"
       "hybrid_convs (layers (final b)) = hybrid_entries 0 0 default_kernel_sizes"
       "hybrid (final b) = Some h" "channels h = 17"
    by auto
  have t0: "tid (input_tensor0 self) = 0" by (simp add: input_tensor0_def)
  have t: "tid (model_input b) = 0" using b(2) t0 by simp
  have m: "map ((+) 0) [0..<17] = [0..<17]" by (simp add: map_idI)
  show "\<exists>b h. build_model self = Inr b \<and> model_input b = input_tensor0 self \<and>
         keep_track (final b) = 17 \<and>
         hybrid_convs (layers (final b)) = hybrid_entries (tid (model_input b)) 0 default_kernel_sizes \<and>
         length (hybrid_convs (layers (final b))) = 17 \<and>
         list_all (\<lambda>(nm, kl, i). i = tid (model_input b)) (hybrid_convs (layers (final b))) \<and>
         map (\<lambda>((p, t, k), kl, i). t) (hybrid_convs (layers (final b))) = [0..<17] \<and>
         hybrid (final b) = Some h \<and> channels h = 17"
    using b hybrid_entries_default[of 0 0] m
    by (intro exI[of _ b] exI[of _ h]) (simp only: t t0 simp_thms)
next
  assume "steps input_res = steps x \<and> 0 < steps x \<and> 0 < channels x \<and> 0 < channels input_res"
  then have e: "steps input_res = steps x" by simp
  from build_step_summary[OF e nf, of d s]
  show "\<exists>x' r' s'. build_step self d (x, input_res) s = Inr ((x', r'), s') \<and>
         keep_track s' = keep_track s + (if d = 0 then 17 else 0) \<and>
         hybrid_convs (layers s') =
           hybrid_convs (layers s) @
           (if d = 0 then hybrid_entries (tid x) (keep_track s) default_kernel_sizes else [])"
    by blast
qed

theorem hybrid_layer_invoked_once_witness:
  "0 < n_filters (HINCEPTION ''out/'' 100 2) \<and> 0 < length_TS (HINCEPTION ''out/'' 100 2) \<and>
   (1::int) \<le> depth (HINCEPTION ''out/'' 100 2) \<and>
   (\<exists>b h. build_model (HINCEPTION ''out/'' 100 2) = Inr b \<and>
      keep_track (final b) = 17 \<and>
      length (hybrid_convs (layers (final b))) = 17 \<and>
      list_all (\<lambda>(nm, kl, i). i = tid (model_input b)) (hybrid_convs (layers (final b))) \<and>
      hybrid (final b) = Some h \<and> channels h = 17)"
proof -
  let ?self = "HINCEPTION ''out/'' 100 2"
  have p: "0 < n_filters ?self" "0 < length_TS ?self" by (simp_all add: HINCEPTION_def)
  have d: "1 \<le> depth ?self" by (simp add: HINCEPTION_def)
  from hybrid_layer_invoked_once[OF p, of "input_tensor0 ?self" "input_tensor0 ?self" 0 "state1 ?self"] d
  have "\<exists>b h. build_model ?self = Inr b \<and>
      keep_track (final b) = 17 \<and>
      length (hybrid_convs (layers (final b))) = 17 \<and>
      list_all (\<lambda>(nm, kl, i). i = tid (model_input b)) (hybrid_convs (layers (final b))) \<and>
      hybrid (final b) = Some h \<and> channels h = 17"
    by blast
  with p d show ?thesis by blast
qed

text \<open>
  The claim as it is written fails for \<open>depth = 0\<close>: the loop body never runs, the model is
  built without any hybrid convolution, \<^verbatim>\<open>keep_track\<close> stays 0 and \<^verbatim>\<open>self.hybrid\<close> is never
  set, so the hybrid layer is invoked zero times.
\<close>

theorem hybrid_layer_not_invoked_at_depth_0:
  "build_model ((HINCEPTION ''out/'' 100 2)\<lparr>depth := 0\<rparr>) =
     Inr \<lparr>model_input = \<lparr>tid = 0, steps = 100, channels = 1\<rparr>,
          model_output = \<lparr>vid = 2, units = 2\<rparr>,
          final = \<lparr>layers = [Input 100 1, GlobalAveragePooling1D 0, Dense 2 ''softmax'' 1],
                    keep_track = 0, hybrid = None\<rparr>\<rparr> \<and>
   hybrid_convs [Input 100 1, GlobalAveragePooling1D 0, Dense 2 ''softmax'' 1] = []"
proof -
  have "depth ((HINCEPTION ''out/'' 100 2)\<lparr>depth := 0\<rparr>) \<le> 0"
    "0 < length_TS ((HINCEPTION ''out/'' 100 2)\<lparr>depth := 0\<rparr>)"
    by (simp_all add: HINCEPTION_def)
  from build_model_shallow[OF this] show ?thesis
    by (simp add: HINCEPTION_def hybrid_convs_def map_filter_def)
qed

section \<open>Configurations the build accepts\<close>

text \<open>
  Claim C3, as the code has it. The class validates nothing itself, and a configuration
  with \<open>depth < 1\<close> does not make the build fail: for positive \<open>length_TS\<close> and \<open>n_classes\<close>
  the loop body never runs and \<^verbatim>\<open>build_model\<close> completes with a network without Inception
  modules, the input followed by global average pooling and the softmax layer. For
  positive \<open>length_TS\<close>, \<open>n_filters\<close> and \<open>n_classes\<close> the build completes whatever \<open>depth\<close> is.
\<close>

theorem build_model_accepts_depth_below_1:
  "(depth self < 1 \<and> 0 < length_TS self \<and> 0 < n_classes self \<longrightarrow>
      build_model self =
        Inr \<lparr>model_input = \<lparr>tid = 0, steps = length_TS self, channels = 1\<rparr>,
             model_output = \<lparr>vid = 2, units = n_classes self\<rparr>,
             final = \<lparr>layers = [Input (length_TS self) 1, GlobalAveragePooling1D 0,
                                 Dense (n_classes self) ''softmax'' 1],
                       keep_track = 0, hybrid = None\<rparr>\<rparr>) \<and>
   (0 < length_TS self \<and> 0 < n_filters self \<and> 0 < n_classes self \<longrightarrow>
      (\<exists>b. build_model self = Inr b \<and> units (model_output b) = n_classes self))"
proof (intro conjI impI)
  assume a: "depth self < 1 \<and> 0 < length_TS self \<and> 0 < n_classes self"
  then have "depth self \<le> 0" "0 < length_TS self" by simp_all
  then show "build_model self =
        Inr \<lparr>model_input = \<lparr>tid = 0, steps = length_TS self, channels = 1\<rparr>,
             model_output = \<lparr>vid = 2, units = n_classes self\<rparr>,
             final = \<lparr>layers = [Input (length_TS self) 1, GlobalAveragePooling1D 0,
                                 Dense (n_classes self) ''softmax'' 1],
                       keep_track = 0, hybrid = None\<rparr>\<rparr>"
    by (rule build_model_shallow)
next
  assume a: "0 < length_TS self \<and> 0 < n_filters self \<and> 0 < n_classes self"
  then have "0 < n_filters self" "0 < length_TS self" by simp_all
  from build_model_any[OF this]
  show "\<exists>b. build_model self = Inr b \<and> units (model_output b) = n_classes self"
    by blast
qed

theorem build_model_accepts_depth_below_1_witness:
  "depth ((HINCEPTION ''out/'' 100 2)\<lparr>depth := - 3\<rparr>) < 1 \<and>
   build_model ((HINCEPTION ''out/'' 100 2)\<lparr>depth := - 3\<rparr>) =
     Inr \<lparr>model_input = \<lparr>tid = 0, steps = 100, channels = 1\<rparr>,
          model_output = \<lparr>vid = 2, units = 2\<rparr>,
          final = \<lparr>layers = [Input 100 1, GlobalAveragePooling1D 0, Dense 2 ''softmax'' 1],
                    keep_track = 0, hybrid = None\<rparr>\<rparr> \<and>
   (\<exists>b. build_model (HINCEPTION ''out/'' 100 2) = Inr b \<and> units (model_output b) = 2)"
  using build_model_accepts_depth_below_1[of "(HINCEPTION ''out/'' 100 2)\<lparr>depth := - 3\<rparr>"]
    build_model_accepts_depth_below_1[of "HINCEPTION ''out/'' 100 2"]
  by (simp add: HINCEPTION_def)

text \<open>
  The claim as it is written fails for \<open>depth = 0\<close>: the construction does not fail, it
  returns a model.
\<close>

theorem build_model_depth_0_succeeds:
  "build_model ((HINCEPTION ''out/'' 100 2)\<lparr>depth := 0\<rparr>) =
     Inr \<lparr>model_input = \<lparr>tid = 0, steps = 100, channels = 1\<rparr>,
          model_output = \<lparr>vid = 2, units = 2\<rparr>,
          final = \<lparr>layers = [Input 100 1, GlobalAveragePooling1D 0, Dense 2 ''softmax'' 1],
                    keep_track = 0, hybrid = None\<rparr>\<rparr> \<and>
   depth ((HINCEPTION ''out/'' 100 2)\<lparr>depth := 0\<rparr>) < 1"
proof -
  have "depth ((HINCEPTION ''out/'' 100 2)\<lparr>depth := 0\<rparr>) \<le> 0"
    "0 < length_TS ((HINCEPTION ''out/'' 100 2)\<lparr>depth := 0\<rparr>)"
    by (simp_all add: HINCEPTION_def)
  from build_model_shallow[OF this] show ?thesis
    by (simp add: HINCEPTION_def)
qed

section \<open>The kernel lengths of the hybrid layer\<close>

lemma kernels_M3:
  "increasing_trend_kernels ((HINCEPTION ''out/'' 100 2)\<lparr>max_cf_length := 3\<rparr>) = [2, 4, 8]"
  "decreasing_trend_kernels ((HINCEPTION ''out/'' 100 2)\<lparr>max_cf_length := 3\<rparr>) = [2, 4, 8]"
  "peak_kernels ((HINCEPTION ''out/'' 100 2)\<lparr>max_cf_length := 3\<rparr>) = [4, 8]"
  by code_simp+

text \<open>With the default \<open>max_cf_length = 6\<close> the lists the constructor computes are the defaults.\<close>

lemma kernels_default:
  "increasing_trend_kernels (HINCEPTION dir len classes) = default_kernel_sizes"
  "decreasing_trend_kernels (HINCEPTION dir len classes) = default_kernel_sizes"
  "peak_kernels (HINCEPTION dir len classes) = drop 1 default_kernel_sizes"
  by (simp_all add: increasing_trend_kernels_def decreasing_trend_kernels_def peak_kernels_def
        HINCEPTION_def py_range_def default_kernel_sizes_def upto_rec1)

lemma hybrid_entries_value:
  "hybrid_entries 0 0 default_kernel_sizes =
    [((''hybrid-increasse-'', 0, 2), 2, 0), ((''hybrid-increasse-'', 1, 4), 4, 0),
     ((''hybrid-increasse-'', 2, 8), 8, 0), ((''hybrid-increasse-'', 3, 16), 16, 0),
     ((''hybrid-increasse-'', 4, 32), 32, 0), ((''hybrid-increasse-'', 5, 64), 64, 0),
     ((''hybrid-decrease-'', 6, 2), 2, 0), ((''hybrid-decrease-'', 7, 4), 4, 0),
     ((''hybrid-decrease-'', 8, 8), 8, 0), ((''hybrid-decrease-'', 9, 16), 16, 0),
     ((''hybrid-decrease-'', 10, 32), 32, 0), ((''hybrid-decrease-'', 11, 64), 64, 0),
     ((''hybrid-peeks-'', 12, 4), 6, 0), ((''hybrid-peeks-'', 13, 8), 12, 0),
     ((''hybrid-peeks-'', 14, 16), 24, 0), ((''hybrid-peeks-'', 15, 32), 48, 0),
     ((''hybrid-peeks-'', 16, 64), 96, 0)]"
  by code_simp

text \<open>
  Claim C1 against the code, at \<open>max_cf_length = 3\<close>. The constructor computes the kernel
  lengths \<open>[2, 4, 8]\<close> for the two trend families and \<open>[4, 8]\<close> for the peaks, but the hybrid
  layer of the built model does not read them: it holds the convolutions of the default
  lengths 2 to 64 for the trend families and 4 to 64 for the peaks, and its output has 17
  channels, not \<open>2 * 3 + (3 - 1) = 8\<close>.
\<close>

theorem hybrid_layer_ignores_max_cf_length:
  "increasing_trend_kernels ((HINCEPTION ''out/'' 100 2)\<lparr>max_cf_length := 3\<rparr>) = [2, 4, 8] \<and>
   decreasing_trend_kernels ((HINCEPTION ''out/'' 100 2)\<lparr>max_cf_length := 3\<rparr>) = [2, 4, 8] \<and>
   peak_kernels ((HINCEPTION ''out/'' 100 2)\<lparr>max_cf_length := 3\<rparr>) = [4, 8] \<and>
   (\<exists>b h. build_model ((HINCEPTION ''out/'' 100 2)\<lparr>max_cf_length := 3\<rparr>) = Inr b \<and>
      hybrid (final b) = Some h \<and> channels h = 17 \<and>
      hybrid_convs (layers (final b)) =
        [((''hybrid-increasse-'', 0, 2), 2, 0), ((''hybrid-increasse-'', 1, 4), 4, 0),
         ((''hybrid-increasse-'', 2, 8), 8, 0), ((''hybrid-increasse-'', 3, 16), 16, 0),
         ((''hybrid-increasse-'', 4, 32), 32, 0), ((''hybrid-increasse-'', 5, 64), 64, 0),
         ((''hybrid-decrease-'', 6, 2), 2, 0), ((''hybrid-decrease-'', 7, 4), 4, 0),
         ((''hybrid-decrease-'', 8, 8), 8, 0), ((''hybrid-decrease-'', 9, 16), 16, 0),
         ((''hybrid-decrease-'', 10, 32), 32, 0), ((''hybrid-decrease-'', 11, 64), 64, 0),
         ((''hybrid-peeks-'', 12, 4), 6, 0), ((''hybrid-peeks-'', 13, 8), 12, 0),
         ((''hybrid-peeks-'', 14, 16), 24, 0), ((''hybrid-peeks-'', 15, 32), 48, 0),
         ((''hybrid-peeks-'', 16, 64), 96, 0)]) \<and>
   (17::nat) \<noteq> 2 * 3 + (3 - 1)"
proof -
  let ?self = "(HINCEPTION ''out/'' 100 2)\<lparr>max_cf_length := 3\<rparr>"
  have d: "1 \<le> depth ?self" "0 < n_filters ?self" "0 < length_TS ?self"
    by (simp_all add: HINCEPTION_def)
  from build_model_deep[OF d] obtain b h where
    b: "build_model ?self = Inr b" "hybrid (final b) = Some h" "channels h = 17"
       "hybrid_convs (layers (final b)) = hybrid_entries 0 0 default_kernel_sizes"
    by blast
  show ?thesis
    using b kernels_M3 unfolding hybrid_entries_value
    by (intro conjI exI[of _ b] exI[of _ h]) simp_all
qed

end
